theory Spec2Isabelle
  imports Main "HOL-Library.Sublist" "HOL-Library.Word"
begin

section \<open>Data model (src/index.ts)\<close>

text \<open>
  JavaScript strings are modelled as \<^typ>\<open>string\<close>, bytes of a Buffer as 8-bit words.
  A field that the upstream JSON may leave out or set to \<open>null\<close> is an option; the
  handlers test such fields by truthiness only.
\<close>

type_synonym byte = "8 word"

text \<open>
  The \<open>metadata\<close> object of a \<open>GyazoImage\<close>. The selectors carry the prefix \<open>metadata_\<close>
  because \<open>url\<close> is also a field of the image itself.
\<close>

record Metadata =
  metadata_app :: "string option"
  metadata_title :: "string option"
  metadata_url :: "string option"
  metadata_desc :: "string option"

record Ocr =
  ocr_locale :: "string option"
  ocr_description :: "string option"

text \<open>Type \<open>GyazoImage\<close>; the field \<open>type\<close> is \<open>image_type\<close> here.\<close>

record GyazoImage =
  image_id :: string
  permalink_url :: string
  thumb_url :: string
  url :: string
  image_type :: string
  created_at :: string
  metadata :: Metadata
  ocr :: "Ocr option"

text \<open>Type \<open>SearchedGyazoImage\<close>; selectors carry the prefix \<open>s_\<close>.\<close>

record SearchedGyazoImage =
  s_image_id :: string
  s_permalink_url :: string
  s_url :: string
  s_access_policy :: "string option"
  s_type :: string
  s_thumb_url :: string
  s_created_at :: string
  s_alt_text :: string

section \<open>String helpers of the JavaScript runtime\<close>

text \<open>
  Truthiness of an optional string: \<open>undefined\<close>, \<open>null\<close> and \<open>""\<close> are falsy.
\<close>

fun truthy :: "string option \<Rightarrow> bool" where
  "truthy None = False"
| "truthy (Some s) = (s \<noteq> [])"

text \<open>
  \<open>s.replace(pat, rep)\<close> with a string pattern: only the first occurrence of \<open>pat\<close>,
  scanning from the left, is replaced; a string without the pattern is returned as it is.
  (The replacements used in the source contain no \<open>$\<close>.)
\<close>

fun replace_first :: "string \<Rightarrow> string \<Rightarrow> string \<Rightarrow> string" where
  "replace_first pat rep [] = (if pat = [] then rep else [])"
| "replace_first pat rep (c # cs) =
     (if prefix pat (c # cs) then rep @ drop (length pat) (c # cs)
      else c # replace_first pat rep cs)"

text \<open>
  The scheme prefix of resource URIs, and the template \<open>gyazo-mcp:///${image_id}\<close> of
  the list handler and the search tool.
\<close>

definition scheme_prefix :: string where
  "scheme_prefix = ''gyazo-mcp:///''"

definition resource_uri :: "string \<Rightarrow> string" where
  "resource_uri ident = scheme_prefix @ ident"

text \<open>\<open>url.replace("gyazo-mcp:///", "")\<close> in the read handler.\<close>

definition strip_scheme :: "string \<Rightarrow> string" where
  "strip_scheme u = replace_first scheme_prefix [] u"

section \<open>The Markdown metadata block\<close>

definition newline :: char where
  "newline = CHR 0x0A"

text \<open>The template \<open>### H:\n${v}\n\n\<close>, with \<open>h\<close> the heading line \<open>### H:\<close>.\<close>

definition md_section :: "string \<Rightarrow> string \<Rightarrow> string" where
  "md_section h v = h @ [newline] @ v @ [newline, newline]"

text \<open>One \<open>if (field) { markdown += section }\<close> step of \<open>getImageMetadataMarkdown\<close>.\<close>

definition append_if :: "string \<Rightarrow> string option \<Rightarrow> string \<Rightarrow> string" where
  "append_if h field acc = (if truthy field then acc @ md_section h (the field) else acc)"

text \<open>\<open>gyazoImage.ocr?.description\<close> and \<open>gyazoImage.ocr?.locale\<close>.\<close>

definition ocr_description_opt :: "GyazoImage \<Rightarrow> string option" where
  "ocr_description_opt g = (case ocr g of None \<Rightarrow> None | Some r \<Rightarrow> ocr_description r)"

definition ocr_locale_opt :: "GyazoImage \<Rightarrow> string option" where
  "ocr_locale_opt g = (case ocr g of None \<Rightarrow> None | Some r \<Rightarrow> ocr_locale r)"

definition getImageMetadataMarkdown :: "GyazoImage \<Rightarrow> string" where
  "getImageMetadataMarkdown gyazoImage =
     (let md0 = [];
          md1 = append_if ''### Title:'' (metadata_title (metadata gyazoImage)) md0;
          md2 = append_if ''### Description:'' (metadata_desc (metadata gyazoImage)) md1;
          md3 = append_if ''### App:'' (metadata_app (metadata gyazoImage)) md2;
          md4 = append_if ''### URL:'' (metadata_url (metadata gyazoImage)) md3;
          md5 = append_if ''### OCR:'' (ocr_description_opt gyazoImage) md4;
          md6 = append_if ''### Locale:'' (ocr_locale_opt gyazoImage) md5
      in md6)"

section \<open>The data-URI prefix of the upload tool\<close>

text \<open>The class \<open>\w\<close> of a regular expression without flags: \<open>[A-Za-z0-9_]\<close>.\<close>

definition is_word_char :: "char \<Rightarrow> bool" where
  "is_word_char c \<longleftrightarrow>
     c \<in> set (''abcdefghijklmnopqrstuvwxyz'' @ ''ABCDEFGHIJKLMNOPQRSTUVWXYZ'' @ ''0123456789_'')"

definition strip_prefix :: "string \<Rightarrow> string \<Rightarrow> string option" where
  "strip_prefix p s = (if prefix p s then Some (drop (length p) s) else None)"

text \<open>
  The regular expression \<open>/^data:image\/(\w+);base64,/\<close> run on a string: \<open>None\<close> when
  it does not match, otherwise group 1 and the text after the match. The expression is
  anchored at the start. \<open>\w+\<close> is greedy and the character after the group has to be
  \<open>;\<close>, which is no word character, so the group is the longest run of word
  characters after \<open>data:image/\<close>, and it must not be empty.
\<close>

definition match_data_uri :: "string \<Rightarrow> (string \<times> string) option" where
  "match_data_uri s =
     (case strip_prefix ''data:image/'' s of
        None \<Rightarrow> None
      | Some r \<Rightarrow>
          (let w = takeWhile is_word_char r in
           if w = [] then None
           else (case strip_prefix '';base64,'' (dropWhile is_word_char r) of
                   None \<Rightarrow> None
                 | Some rest \<Rightarrow> Some (w, rest))))"

text \<open>\<open>base64Data.replace(/^data:image\/(\w+);base64,/, "")\<close>\<close>

definition replace_data_uri :: "string \<Rightarrow> string" where
  "replace_data_uri base64Data =
     (case match_data_uri base64Data of None \<Rightarrow> base64Data | Some (w, rest) \<Rightarrow> rest)"

text \<open>
  \<open>base64Data.match(/^data:image\/(\w+);base64,/)\<close>: \<open>null\<close> or the match array, of which
  only element 1 (the group) is read.
\<close>

definition typeMatch :: "string \<Rightarrow> string option" where
  "typeMatch base64Data = map_option fst (match_data_uri base64Data)"

text \<open>
  \<open>let imageType = "png"; if (typeMatch && typeMatch[1]) imageType = typeMatch[1];\<close>
\<close>

definition imageType :: "string \<Rightarrow> string" where
  "imageType base64Data =
     (case typeMatch base64Data of
        None \<Rightarrow> ''png''
      | Some t \<Rightarrow> if t \<noteq> [] then t else ''png'')"

section \<open>Base64 (Buffer of Node.js)\<close>

definition base64_alphabet :: string where
  "base64_alphabet =
     ''ABCDEFGHIJKLMNOPQRSTUVWXYZ'' @ ''abcdefghijklmnopqrstuvwxyz'' @ ''0123456789+/''"

fun index_of :: "char \<Rightarrow> string \<Rightarrow> nat option" where
  "index_of c [] = None"
| "index_of c (x # xs) = (if c = x then Some 0 else map_option Suc (index_of c xs))"

text \<open>
  The value of a base64 character. Node.js accepts the URL-safe characters \<open>-\<close> and
  \<open>_\<close> as well.
\<close>

definition unbase64 :: "char \<Rightarrow> nat option" where
  "unbase64 c =
     (if c = CHR ''-'' then Some 62 else if c = CHR ''_'' then Some 63
      else index_of c base64_alphabet)"

text \<open>
  \<open>Buffer.from(s, 'base64')\<close> is a function of the Node.js runtime. It never throws:
  characters that are no base64 characters are skipped and decoding ends at the first
  \<open>=\<close>. \<open>sextets\<close> gives the values of the characters that are decoded.
\<close>

fun sextets :: "string \<Rightarrow> nat list" where
  "sextets [] = []"
| "sextets (c # cs) =
     (if c = CHR ''='' then []
      else (case unbase64 c of None \<Rightarrow> sextets cs | Some v \<Rightarrow> v # sextets cs))"

text \<open>
  Four sextets give three bytes; two or three left-over sextets give one or two bytes, a
  single left-over sextet gives none.
\<close>

fun decode_sextets :: "nat list \<Rightarrow> byte list" where
  "decode_sextets (a # b # c # d # r) =
     [of_nat (a * 4 + b div 16), of_nat ((b mod 16) * 16 + c div 4), of_nat ((c mod 4) * 64 + d)]
     @ decode_sextets r"
| "decode_sextets [a, b, c] = [of_nat (a * 4 + b div 16), of_nat ((b mod 16) * 16 + c div 4)]"
| "decode_sextets [a, b] = [of_nat (a * 4 + b div 16)]"
| "decode_sextets [a] = []"
| "decode_sextets [] = []"

definition base64_decode :: "string \<Rightarrow> byte list" where
  "base64_decode s = decode_sextets (sextets s)"

text \<open>\<open>Buffer.from(bytes).toString("base64")\<close>: the standard alphabet, padded with \<open>=\<close>.\<close>

definition base64_char :: "nat \<Rightarrow> char" where
  "base64_char n = base64_alphabet ! (n mod 64)"

fun base64_encode :: "byte list \<Rightarrow> string" where
  "base64_encode (a # b # c # r) =
     [base64_char (unat a div 4), base64_char ((unat a mod 4) * 16 + unat b div 16),
      base64_char ((unat b mod 16) * 4 + unat c div 64), base64_char (unat c mod 64)]
     @ base64_encode r"
| "base64_encode [a, b] =
     [base64_char (unat a div 4), base64_char ((unat a mod 4) * 16 + unat b div 16),
      base64_char ((unat b mod 16) * 4), CHR ''='']"
| "base64_encode [a] =
     [base64_char (unat a div 4), base64_char ((unat a mod 4) * 16), CHR ''='', CHR ''='']"
| "base64_encode [] = []"

text \<open>The bytes of an ASCII string, to name expected buffers.\<close>

definition bytes_of :: "string \<Rightarrow> byte list" where
  "bytes_of s = map (\<lambda>c. of_nat (of_char c)) s"

section \<open>Numbers as text\<close>

definition digit_char :: "nat \<Rightarrow> char" where
  "digit_char d = ''0123456789'' ! (d mod 10)"

text \<open>The decimal text of a non-negative integer, as a template literal prints it.\<close>

fun decimal :: "nat \<Rightarrow> string" where
  "decimal n = (if n < 10 then [digit_char n] else decimal (n div 10) @ [digit_char (n mod 10)])"

declare decimal.simps [simp del]

section \<open>JSON text (JSON.stringify with an indentation of two spaces)\<close>

datatype json =
  JNull
| JBool bool
| JNumber string
| JString string
| JArray "json list"
| JObject "(string \<times> json) list"

definition dquote :: char where
  "dquote = CHR 0x22"

definition backslash :: char where
  "backslash = CHR 0x5C"

definition hex_char :: "nat \<Rightarrow> char" where
  "hex_char d = ''0123456789abcdef'' ! (d mod 16)"

text \<open>
  The escape of one character inside a JSON string (QuoteJSONString): the short escapes,
  \<open>\u00XX\<close> for the other control characters, every other character as it is.
\<close>

definition json_escape :: "char \<Rightarrow> string" where
  "json_escape c =
     (if c = CHR 0x08 then [backslash, CHR ''b'']
      else if c = CHR 0x09 then [backslash, CHR ''t'']
      else if c = CHR 0x0A then [backslash, CHR ''n'']
      else if c = CHR 0x0C then [backslash, CHR ''f'']
      else if c = CHR 0x0D then [backslash, CHR ''r'']
      else if c = dquote then [backslash, dquote]
      else if c = backslash then [backslash, backslash]
      else if (of_char c :: nat) < 32
        then [backslash, CHR ''u'', CHR ''0'', CHR ''0'',
              hex_char ((of_char c :: nat) div 16), hex_char ((of_char c :: nat) mod 16)]
      else [c])"

definition QuoteJSONString :: "string \<Rightarrow> string" where
  "QuoteJSONString s = [dquote] @ concat (map json_escape s) @ [dquote]"

fun join :: "string \<Rightarrow> string list \<Rightarrow> string" where
  "join sep [] = []"
| "join sep [x] = x"
| "join sep (x # y # r) = x @ sep @ join sep (y # r)"

definition gap :: string where
  "gap = ''  ''"

text \<open>
  SerializeJSONProperty with a gap of two spaces; the first argument is the current
  indentation. An empty array or object is printed without line breaks.
\<close>

fun serialize :: "string \<Rightarrow> json \<Rightarrow> string" where
  "serialize ind JNull = ''null''"
| "serialize ind (JBool b) = (if b then ''true'' else ''false'')"
| "serialize ind (JNumber r) = r"
| "serialize ind (JString s) = QuoteJSONString s"
| "serialize ind (JArray vs) =
     (if vs = [] then ''[]''
      else ''['' @ [newline] @ (ind @ gap)
           @ join ('','' @ [newline] @ (ind @ gap)) (map (serialize (ind @ gap)) vs)
           @ [newline] @ ind @ '']'')"
| "serialize ind (JObject ms) =
     (if ms = [] then ''{}''
      else ''{'' @ [newline] @ (ind @ gap)
           @ join ('','' @ [newline] @ (ind @ gap))
               (map (\<lambda>m. QuoteJSONString (fst m) @ '': '' @ serialize (ind @ gap) (snd m)) ms)
           @ [newline] @ ind @ ''}'')"

text \<open>\<open>JSON.stringify(value, null, 2)\<close>\<close>

definition JSON_stringify :: "json \<Rightarrow> string" where
  "JSON_stringify v = serialize [] v"

section \<open>Values of tool arguments\<close>

text \<open>
  A JavaScript value as it arrives in \<open>request.params.arguments\<close>. A number carries the
  text that \<open>toString()\<close> gives for it, an object or array the text that \<open>String()\<close>
  gives for it; the handlers use nothing else of them.
\<close>

datatype jsval =
  JUndefined
| JNullVal
| JBoolVal bool
| JNum string
| JStr string
| JObj string

fun js_truthy :: "jsval \<Rightarrow> bool" where
  "js_truthy JUndefined = False"
| "js_truthy JNullVal = False"
| "js_truthy (JBoolVal b) = b"
| "js_truthy (JNum r) = (r \<noteq> ''0'' \<and> r \<noteq> ''NaN'')"
| "js_truthy (JStr s) = (s \<noteq> [])"
| "js_truthy (JObj r) = True"

text \<open>\<open>String(v)\<close>, which is also how a template literal prints \<open>v\<close>.\<close>

fun js_String :: "jsval \<Rightarrow> string" where
  "js_String JUndefined = ''undefined''"
| "js_String JNullVal = ''null''"
| "js_String (JBoolVal b) = (if b then ''true'' else ''false'')"
| "js_String (JNum r) = r"
| "js_String (JStr s) = s"
| "js_String (JObj r) = r"

section \<open>The runtime and the upstream service\<close>

text \<open>A thrown value: an \<open>Error\<close> with its message, or something that is no \<open>Error\<close>.\<close>

datatype js_throw = JsError string | JsNonError

datatype form_value =
  FormString string
| FormFile "byte list" string string

type_synonym form_data = "(string \<times> form_value) list"

text \<open>The JSON body of a successful upload, of which three properties are printed.\<close>

record UploadResult =
  result_permalink_url :: jsval
  result_url :: jsval
  result_image_id :: jsval

record Response =
  response_ok :: bool
  response_status :: nat
  response_json :: "js_throw + UploadResult"

text \<open>
  What the handlers take from their environment. Every \<open>fetch_\<close> field stands for
  \<open>fetch(url)\<close> followed by \<open>response.json()\<close> (or \<open>blob()\<close> and \<open>arrayBuffer()\<close>) at
  the declared type: it throws, or gives the decoded body, \<open>None\<close> for a body that is
  \<open>null\<close> (the falsy value of the declared type).
\<close>

record runtime =
  GYAZO_ACCESS_TOKEN :: string
  URLSearchParams_toString :: "(string \<times> string) list \<Rightarrow> string"
  fetch_images :: "string \<Rightarrow> js_throw + GyazoImage list option"
  fetch_image :: "string \<Rightarrow> js_throw + GyazoImage option"
  fetch_search :: "string \<Rightarrow> js_throw + SearchedGyazoImage list option"
  fetch_bytes :: "string \<Rightarrow> js_throw + byte list"
  fetch_post :: "string \<Rightarrow> form_data \<Rightarrow> js_throw + Response"
  Date_now :: nat

text \<open>The upstream requests a handler issues, in order.\<close>

datatype upstream_call = Get string | Post string form_data

section \<open>Resource handlers\<close>

text \<open>
  Every handler returns the list of upstream requests it issued, in order, and either the
  thrown value (\<open>Inl\<close>) or its reply (\<open>Inr\<close>). Writing to the console is left out.
\<close>

record Resource =
  resource_uri_of :: string
  resource_mimeType :: string
  resource_name :: string

text \<open>\<open>gyazoImage.metadata.title || gyazoImage.image_id\<close>\<close>

definition resource_display_name :: "GyazoImage \<Rightarrow> string" where
  "resource_display_name gyazoImage =
     (if truthy (metadata_title (metadata gyazoImage))
      then the (metadata_title (metadata gyazoImage)) else image_id gyazoImage)"

definition to_resource :: "GyazoImage \<Rightarrow> Resource" where
  "to_resource gyazoImage =
     \<lparr> resource_uri_of = resource_uri (image_id gyazoImage),
       resource_mimeType = ''image/'' @ image_type gyazoImage,
       resource_name = resource_display_name gyazoImage \<rparr>"

text \<open>
  Handler of \<open>ListResourcesRequestSchema\<close>. A body that is \<open>null\<close> makes
  \<open>gyazoImages.map\<close> throw a TypeError.
\<close>

definition ListResources :: "runtime \<Rightarrow> upstream_call list \<times> (js_throw + Resource list)" where
  "ListResources rt =
     (let endpoint = ''https://api.gyazo.com/api/images'';
          params = [(''access_token'', GYAZO_ACCESS_TOKEN rt), (''page'', ''1''),
                    (''per_page'', ''10'')];
          target = endpoint @ ''?'' @ URLSearchParams_toString rt params
      in case fetch_images rt target of
           Inl e \<Rightarrow> ([Get target], Inl e)
         | Inr None \<Rightarrow>
             ([Get target],
              Inl (JsError ''Cannot read properties of null (reading 'map')''))
         | Inr (Some gyazoImages) \<Rightarrow> ([Get target], Inr (map to_resource gyazoImages)))"

datatype resource_content =
  BlobContent string string string
| TextContent string string string

text \<open>
  The \<open>catch\<close> block of the read handler: an \<open>Error\<close> is thrown again with its
  message, anything else becomes a fixed message.
\<close>

definition read_catch :: "js_throw \<Rightarrow> js_throw" where
  "read_catch e =
     (case e of JsError m \<Rightarrow> JsError m | JsNonError \<Rightarrow> JsError ''An unknown error occurred'')"

text \<open>Handler of \<open>ReadResourceRequestSchema\<close>; the argument is \<open>request.params.uri\<close>.\<close>

definition ReadResource ::
  "runtime \<Rightarrow> string \<Rightarrow> upstream_call list \<times> (js_throw + resource_content list)" where
  "ReadResource rt uri =
     (let ident = strip_scheme uri;
          endpoint = ''https://api.gyazo.com/api/images/'' @ ident;
          params = [(''access_token'', GYAZO_ACCESS_TOKEN rt)];
          target = endpoint @ ''?'' @ URLSearchParams_toString rt params
      in case fetch_image rt target of
           Inl e \<Rightarrow> ([Get target], Inl (read_catch e))
         | Inr None \<Rightarrow>
             ([Get target], Inl (read_catch (JsError (''Image '' @ ident @ '' not found''))))
         | Inr (Some gyazoImage) \<Rightarrow>
             (let imageUrl = url gyazoImage
              in case fetch_bytes rt imageUrl of
                   Inl e \<Rightarrow> ([Get target, Get imageUrl], Inl (read_catch e))
                 | Inr imageBuffer \<Rightarrow>
                     ([Get target, Get imageUrl],
                      Inr [BlobContent uri (''image/'' @ image_type gyazoImage)
                             (base64_encode imageBuffer),
                           TextContent uri ''text/plain''
                             (getImageMetadataMarkdown gyazoImage)])))"

section \<open>Tool handler\<close>

datatype tool_content =
  TextPart string
| ImagePart string string

text \<open>\<open>request.params\<close> of a call-tool request.\<close>

record CallToolParams =
  params_name :: string
  params_arguments :: "(string \<Rightarrow> jsval) option"

text \<open>The object built for one search result, with its properties in source order.\<close>

definition search_content :: "SearchedGyazoImage \<Rightarrow> json" where
  "search_content img =
     JObject [(''uri'', JString (resource_uri (s_image_id img))),
              (''mimeType'', JString (''image/'' @ s_type img)),
              (''permalink_url'', JString (s_permalink_url img)),
              (''url'', JString (s_url img)),
              (''thumb_url'', JString (s_thumb_url img)),
              (''created_at'', JString (s_created_at img)),
              (''alt_text'', JString (s_alt_text img))]"

definition invalid_search_arguments :: js_throw where
  "invalid_search_arguments =
     JsError ''Invalid search arguments: query is required and must be a string''"

text \<open>\<open>typeof v === "number" ? v : d\<close> followed by \<open>toString()\<close>.\<close>

definition number_or :: "jsval \<Rightarrow> string \<Rightarrow> string" where
  "number_or v d = (case v of JNum r \<Rightarrow> r | _ \<Rightarrow> d)"

definition gyazo_search ::
  "runtime \<Rightarrow> (string \<Rightarrow> jsval) option \<Rightarrow> upstream_call list \<times> (js_throw + tool_content list)" where
  "gyazo_search rt arguments =
     (case arguments of
        None \<Rightarrow> ([], Inl invalid_search_arguments)
      | Some args \<Rightarrow>
          (case args ''query'' of
             JStr query \<Rightarrow>
               (let endpoint = ''https://api.gyazo.com/api/search'';
                    page = number_or (args ''page'') ''1'';
                    per = number_or (args ''per'') ''20'';
                    params = [(''access_token'', GYAZO_ACCESS_TOKEN rt), (''query'', query),
                              (''page'', page), (''per'', per)];
                    target = endpoint @ ''?'' @ URLSearchParams_toString rt params
                in case fetch_search rt target of
                     Inl e \<Rightarrow> ([Get target], Inl e)
                   | Inr images \<Rightarrow>
                       if images = None \<or> length (the images) = 0
                       then ([Get target], Inr [TextPart ''No images found''])
                       else ([Get target],
                             Inr [TextPart
                                    (JSON_stringify (JArray (map search_content (the images))))]))
           | _ \<Rightarrow> ([], Inl invalid_search_arguments)))"

definition gyazo_latest_image ::
  "runtime \<Rightarrow> upstream_call list \<times> (js_throw + tool_content list)" where
  "gyazo_latest_image rt =
     (let endpoint = ''https://api.gyazo.com/api/images'';
          params = [(''access_token'', GYAZO_ACCESS_TOKEN rt), (''page'', ''1''),
                    (''per_page'', ''1'')];
          target = endpoint @ ''?'' @ URLSearchParams_toString rt params
      in case fetch_images rt target of
           Inl e \<Rightarrow> ([Get target], Inl e)
         | Inr None \<Rightarrow> ([Get target], Inl (JsError ''Image not found''))
         | Inr (Some []) \<Rightarrow> ([Get target], Inl (JsError ''Image not found''))
         | Inr (Some (img # others)) \<Rightarrow>
             (let imageUrl = url img
              in case fetch_bytes rt imageUrl of
                   Inl e \<Rightarrow> ([Get target, Get imageUrl], Inl e)
                 | Inr imageBuffer \<Rightarrow>
                     ([Get target, Get imageUrl],
                      Inr [ImagePart (base64_encode imageBuffer) (''image/'' @ image_type img),
                           TextPart (getImageMetadataMarkdown img)])))"

definition invalid_upload_arguments :: js_throw where
  "invalid_upload_arguments =
     JsError ''Invalid upload arguments: imageData is required and must be a string''"

text \<open>The \<open>catch\<close> block of the upload tool.\<close>

definition upload_catch :: "js_throw \<Rightarrow> js_throw" where
  "upload_catch e =
     (case e of
        JsError m \<Rightarrow> JsError (''Upload failed: '' @ m)
      | JsNonError \<Rightarrow> JsError ''Upload failed with an unknown error'')"

text \<open>
  The \<open>File\<close> made from \<open>imageData\<close>: the prefix is removed, the image type is read from
  it, the rest is decoded, and the file is named after the time and the type.
\<close>

definition upload_file :: "nat \<Rightarrow> string \<Rightarrow> form_value" where
  "upload_file now base64Data =
     (let base64Image = replace_data_uri base64Data;
          ty = imageType base64Data;
          imageBuffer = base64_decode base64Image;
          fileName = ''screenshot_'' @ decimal now @ ''.'' @ ty
      in FormFile imageBuffer fileName (''image/'' @ ty))"

text \<open>\<open>if (arguments.k) formData.append(field, String(arguments.k))\<close>\<close>

definition optional_field :: "string \<Rightarrow> jsval \<Rightarrow> form_data" where
  "optional_field field v = (if js_truthy v then [(field, FormString (js_String v))] else [])"

definition upload_success_text :: "UploadResult \<Rightarrow> string" where
  "upload_success_text result =
     ''Image successfully uploaded to Gyazo!'' @ [newline, newline]
     @ ''Permalink URL: '' @ js_String (result_permalink_url result) @ [newline]
     @ ''Image URL: '' @ js_String (result_url result) @ [newline]
     @ ''Image ID: '' @ js_String (result_image_id result)"

definition gyazo_upload ::
  "runtime \<Rightarrow> (string \<Rightarrow> jsval) option \<Rightarrow> upstream_call list \<times> (js_throw + tool_content list)" where
  "gyazo_upload rt arguments =
     (case arguments of
        None \<Rightarrow> ([], Inl invalid_upload_arguments)
      | Some args \<Rightarrow>
          (case args ''imageData'' of
             JStr base64Data \<Rightarrow>
               (let endpoint = ''https://upload.gyazo.com/api/upload'';
                    formData =
                      [(''imagedata'', upload_file (Date_now rt) base64Data)]
                      @ optional_field ''title'' (args ''title'')
                      @ optional_field ''desc'' (args ''description'')
                      @ optional_field ''referer_url'' (args ''refererUrl'')
                      @ optional_field ''app'' (args ''app'')
                      @ [(''access_token'', FormString (GYAZO_ACCESS_TOKEN rt))]
                in case fetch_post rt endpoint formData of
                     Inl e \<Rightarrow> ([Post endpoint formData], Inl (upload_catch e))
                   | Inr response \<Rightarrow>
                       if \<not> response_ok response
                       then ([Post endpoint formData],
                             Inl (upload_catch
                                    (JsError (''Upload failed with status: ''
                                              @ decimal (response_status response)))))
                       else (case response_json response of
                               Inl e \<Rightarrow> ([Post endpoint formData], Inl (upload_catch e))
                             | Inr result \<Rightarrow>
                                 ([Post endpoint formData],
                                  Inr [TextPart (upload_success_text result)])))
           | _ \<Rightarrow> ([], Inl invalid_upload_arguments)))"

text \<open>Handler of \<open>CallToolRequestSchema\<close>.\<close>

definition CallTool ::
  "runtime \<Rightarrow> CallToolParams \<Rightarrow> upstream_call list \<times> (js_throw + tool_content list)" where
  "CallTool rt params =
     (if params_name params = ''gyazo_search'' then gyazo_search rt (params_arguments params)
      else if params_name params = ''gyazo_latest_image'' then gyazo_latest_image rt
      else if params_name params = ''gyazo_upload'' then gyazo_upload rt (params_arguments params)
      else ([], Inl (JsError (''Tool '' @ params_name params @ '' not found''))))"

section \<open>Notions used to state the properties\<close>

text \<open>
  A string has the data-URI prefix with subtype \<open>sub\<close> and payload \<open>rest\<close>: it is
  \<open>data:image/\<close>, a non-empty subtype of word characters, \<open>;base64,\<close> and the payload.
\<close>

definition data_uri_parts :: "string \<Rightarrow> string \<Rightarrow> string \<Rightarrow> bool" where
  "data_uri_parts s sub rest \<longleftrightarrow>
     s = ''data:image/'' @ sub @ '';base64,'' @ rest \<and> sub \<noteq> [] \<and> list_all is_word_char sub"

text \<open>
  A serializer of query parameters without percent-encoding, and an upstream that has no
  images and refuses uploads, for concrete runs of the handlers.
\<close>

definition plain_query :: "(string \<times> string) list \<Rightarrow> string" where
  "plain_query ps = join ''&'' (map (\<lambda>(k, v). k @ ''='' @ v) ps)"

definition empty_upstream :: runtime where
  "empty_upstream =
     \<lparr> GYAZO_ACCESS_TOKEN = ''token'',
       URLSearchParams_toString = plain_query,
       fetch_images = (\<lambda>u. Inr (Some [])),
       fetch_image = (\<lambda>u. Inr None),
       fetch_search = (\<lambda>u. Inr (Some [])),
       fetch_bytes = (\<lambda>u. Inr []),
       fetch_post = (\<lambda>u f. Inl (JsError ''fetch failed'')),
       Date_now = 0 \<rparr>"

definition query_only :: "string \<Rightarrow> string \<Rightarrow> jsval" where
  "query_only q k = (if k = ''query'' then JStr q else JUndefined)"

text \<open>The lines of a text: the pieces between line feeds.\<close>

fun split_lines :: "string \<Rightarrow> string list" where
  "split_lines [] = [[]]"
| "split_lines (c # cs) =
     (if c = newline then [] # split_lines cs
      else (case split_lines cs of [] \<Rightarrow> [[c]] | l # ls \<Rightarrow> (c # l) # ls))"

text \<open>A line that Markdown reads as a level-3 heading.\<close>

definition is_h3 :: "string \<Rightarrow> bool" where
  "is_h3 l \<longleftrightarrow> prefix ''### '' l"

text \<open>
  The six optional fields in the fixed order, each with its heading line; the sections of
  the fields that are present and not empty; and the text of a list of sections.
\<close>

definition md_fields :: "GyazoImage \<Rightarrow> (string \<times> string option) list" where
  "md_fields g =
     [(''### Title:'', metadata_title (metadata g)),
      (''### Description:'', metadata_desc (metadata g)),
      (''### App:'', metadata_app (metadata g)),
      (''### URL:'', metadata_url (metadata g)),
      (''### OCR:'', ocr_description_opt g),
      (''### Locale:'', ocr_locale_opt g)]"

definition present_sections :: "GyazoImage \<Rightarrow> (string \<times> string) list" where
  "present_sections g = map (\<lambda>f. (fst f, the (snd f))) (filter (\<lambda>f. truthy (snd f)) (md_fields g))"

definition render_sections :: "(string \<times> string) list \<Rightarrow> string" where
  "render_sections xs = concat (map (\<lambda>x. md_section (fst x) (snd x)) xs)"

text \<open>No line of a field value is itself a level-3 heading.\<close>

definition no_h3_line :: "string \<Rightarrow> bool" where
  "no_h3_line v \<longleftrightarrow> list_all (\<lambda>l. \<not> is_h3 l) (split_lines v)"

text \<open>
  Two images for concrete runs: one whose description holds a heading line, one with a
  title, an application, an empty description and an OCR record.
\<close>

definition heading_in_value :: GyazoImage where
  "heading_in_value =
     \<lparr> image_id = ''abc'', permalink_url = ''https://gyazo.com/abc'',
       thumb_url = ''https://thumb.gyazo.com/thumb/200/abc.jpg'',
       url = ''https://i.gyazo.com/abc.png'', image_type = ''png'',
       created_at = ''2025-02-14T12:04:26+0000'',
       metadata = \<lparr> metadata_app = None, metadata_title = None, metadata_url = None,
                    metadata_desc = Some (''see'' @ [newline] @ ''### Title:'') \<rparr>,
       ocr = None \<rparr>"

definition titled_image :: GyazoImage where
  "titled_image =
     \<lparr> image_id = ''abc'', permalink_url = ''https://gyazo.com/abc'',
       thumb_url = ''https://thumb.gyazo.com/thumb/200/abc.jpg'',
       url = ''https://i.gyazo.com/abc.png'', image_type = ''png'',
       created_at = ''2025-02-14T12:04:26+0000'',
       metadata = \<lparr> metadata_app = Some ''Chrome'', metadata_title = Some ''Home'',
                    metadata_url = None, metadata_desc = Some [] \<rparr>,
       ocr = Some \<lparr> ocr_locale = Some ''en'', ocr_description = Some (''Gyazo'' @ [newline]) \<rparr> \<rparr>"

text \<open>No value of a present field has a line that is a level-3 heading.\<close>

definition h3_clean :: "GyazoImage \<Rightarrow> bool" where
  "h3_clean g \<longleftrightarrow> list_all (\<lambda>x. no_h3_line (snd x)) (present_sections g)"

section \<open>Reading JSON text\<close>

text \<open>
  \<open>JSON.parse\<close> is a function of the JavaScript runtime; the handlers never call it. It
  is modelled here to say what the text of the search tool denotes: a recursive-descent
  parser of the JSON grammar, whose first argument bounds the number of nested calls.
  A number is kept as its text. A \<open>\u\<close> escape is accepted for the 8-bit characters of
  this model only. An object is the list of its members in the order of the text.
\<close>

definition is_ws :: "char \<Rightarrow> bool" where
  "is_ws c \<longleftrightarrow> c = CHR '' '' \<or> c = CHR 0x09 \<or> c = CHR 0x0A \<or> c = CHR 0x0D"

definition skip_ws :: "string \<Rightarrow> string" where
  "skip_ws s = dropWhile is_ws s"

definition hex_value :: "char \<Rightarrow> nat option" where
  "hex_value c =
     (case index_of c ''0123456789abcdef'' of
        Some d \<Rightarrow> Some d
      | None \<Rightarrow> map_option (\<lambda>d. d + 10) (index_of c ''ABCDEF''))"

definition unescape :: "char \<Rightarrow> char option" where
  "unescape e =
     (if e = dquote then Some dquote
      else if e = backslash then Some backslash
      else if e = CHR ''/'' then Some (CHR ''/'')
      else if e = CHR ''b'' then Some (CHR 0x08)
      else if e = CHR ''f'' then Some (CHR 0x0C)
      else if e = CHR ''n'' then Some (CHR 0x0A)
      else if e = CHR ''r'' then Some (CHR 0x0D)
      else if e = CHR ''t'' then Some (CHR 0x09)
      else None)"

text \<open>The characters of a string after its opening quote, up to the closing quote.\<close>

fun parse_chars :: "string \<Rightarrow> (string \<times> string) option" where
  "parse_chars [] = None"
| "parse_chars (c # cs) =
     (if c = dquote then Some ([], cs)
      else if c = backslash then
        (case cs of
           [] \<Rightarrow> None
         | e # r \<Rightarrow>
             if e = CHR ''u'' then
               (case r of
                  h3 # h2 # h1 # h0 # r' \<Rightarrow>
                    (case (hex_value h3, hex_value h2, hex_value h1, hex_value h0) of
                       (Some x3, Some x2, Some x1, Some x0) \<Rightarrow>
                         if x3 = 0 \<and> x2 = 0 then
                           (case parse_chars r' of
                              None \<Rightarrow> None
                            | Some (s, t) \<Rightarrow> Some (char_of (16 * x1 + x0) # s, t))
                         else None
                     | _ \<Rightarrow> None)
                | _ \<Rightarrow> None)
             else
               (case unescape e of
                  None \<Rightarrow> None
                | Some x \<Rightarrow>
                    (case parse_chars r of
                       None \<Rightarrow> None
                     | Some (s, t) \<Rightarrow> Some (x # s, t))))
      else if (of_char c :: nat) < 32 then None
      else (case parse_chars cs of None \<Rightarrow> None | Some (s, t) \<Rightarrow> Some (c # s, t)))"

definition is_digit :: "char \<Rightarrow> bool" where
  "is_digit c \<longleftrightarrow> c \<in> set ''0123456789''"

definition parse_frac :: "string \<Rightarrow> (string \<times> string) option" where
  "parse_frac s =
     (case s of
        [] \<Rightarrow> Some ([], s)
      | c # r \<Rightarrow>
          if c = CHR ''.'' then
            (if takeWhile is_digit r = [] then None
             else Some (c # takeWhile is_digit r, dropWhile is_digit r))
          else Some ([], s))"

definition parse_sign :: "string \<Rightarrow> string \<times> string" where
  "parse_sign s =
     (case s of
        [] \<Rightarrow> ([], s)
      | c # r \<Rightarrow> if c = CHR ''+'' \<or> c = CHR ''-'' then ([c], r) else ([], s))"

definition parse_exp :: "string \<Rightarrow> (string \<times> string) option" where
  "parse_exp s =
     (case s of
        [] \<Rightarrow> Some ([], s)
      | c # r \<Rightarrow>
          if c = CHR ''e'' \<or> c = CHR ''E'' then
            (let sg = fst (parse_sign r); r1 = snd (parse_sign r) in
             if takeWhile is_digit r1 = [] then None
             else Some (c # sg @ takeWhile is_digit r1, dropWhile is_digit r1))
          else Some ([], s))"

definition parse_number :: "string \<Rightarrow> (string \<times> string) option" where
  "parse_number s =
     (let sg = (case s of [] \<Rightarrow> [] | c # r \<Rightarrow> if c = CHR ''-'' then [c] else []);
          s1 = drop (length sg) s;
          ip = takeWhile is_digit s1
      in if ip = [] \<or> (hd ip = CHR ''0'' \<and> tl ip \<noteq> []) then None
         else (case parse_frac (dropWhile is_digit s1) of
                 None \<Rightarrow> None
               | Some (fr, s3) \<Rightarrow>
                   (case parse_exp s3 of
                      None \<Rightarrow> None
                    | Some (ex, s4) \<Rightarrow> Some (sg @ ip @ fr @ ex, s4))))"

text \<open>
  A value; the elements of a non-empty array up to \<open>]\<close>; the members of a non-empty
  object up to \<open>}\<close>. Each returns the rest of the text.
\<close>

fun parse_value :: "nat \<Rightarrow> string \<Rightarrow> (json \<times> string) option"
  and parse_elements :: "nat \<Rightarrow> string \<Rightarrow> (json list \<times> string) option"
  and parse_members :: "nat \<Rightarrow> string \<Rightarrow> ((string \<times> json) list \<times> string) option"
where
  "parse_value 0 s = None"
| "parse_value (Suc n) [] = None"
| "parse_value (Suc n) (c # cs) =
     (if c = dquote then
        (case parse_chars cs of None \<Rightarrow> None | Some (t, r) \<Rightarrow> Some (JString t, r))
      else if c = CHR ''['' then
        (case skip_ws cs of
           [] \<Rightarrow> None
         | x # r \<Rightarrow>
             if x = CHR '']'' then Some (JArray [], r)
             else (case parse_elements n (x # r) of
                     None \<Rightarrow> None
                   | Some (vs, r') \<Rightarrow> Some (JArray vs, r')))
      else if c = CHR ''{'' then
        (case skip_ws cs of
           [] \<Rightarrow> None
         | x # r \<Rightarrow>
             if x = CHR ''}'' then Some (JObject [], r)
             else (case parse_members n (x # r) of
                     None \<Rightarrow> None
                   | Some (ms, r') \<Rightarrow> Some (JObject ms, r')))
      else if prefix ''null'' (c # cs) then Some (JNull, drop 4 (c # cs))
      else if prefix ''true'' (c # cs) then Some (JBool True, drop 4 (c # cs))
      else if prefix ''false'' (c # cs) then Some (JBool False, drop 5 (c # cs))
      else (case parse_number (c # cs) of
              None \<Rightarrow> None
            | Some (l, r) \<Rightarrow> Some (JNumber l, r)))"
| "parse_elements 0 s = None"
| "parse_elements (Suc n) s =
     (case parse_value n s of
        None \<Rightarrow> None
      | Some (v, r) \<Rightarrow>
          (case skip_ws r of
             [] \<Rightarrow> None
           | x # r' \<Rightarrow>
               if x = CHR '']'' then Some ([v], r')
               else if x = CHR '','' then
                 (case parse_elements n (skip_ws r') of
                    None \<Rightarrow> None
                  | Some (vs, r'') \<Rightarrow> Some (v # vs, r''))
               else None))"
| "parse_members 0 s = None"
| "parse_members (Suc n) [] = None"
| "parse_members (Suc n) (q # s1) =
     (if q \<noteq> dquote then None
      else
        (case parse_chars s1 of
           None \<Rightarrow> None
         | Some (k, r) \<Rightarrow>
             (case skip_ws r of
                [] \<Rightarrow> None
              | x # r1 \<Rightarrow>
                  if x \<noteq> CHR '':'' then None
                  else
                    (case parse_value n (skip_ws r1) of
                       None \<Rightarrow> None
                     | Some (v, r2) \<Rightarrow>
                         (case skip_ws r2 of
                            [] \<Rightarrow> None
                          | y # r3 \<Rightarrow>
                              if y = CHR ''}'' then Some ([(k, v)], r3)
                              else if y = CHR '','' then
                                (case parse_members n (skip_ws r3) of
                                   None \<Rightarrow> None
                                 | Some (ms, r4) \<Rightarrow> Some ((k, v) # ms, r4))
                              else None)))))"

text \<open>
  The whole text is one value between optional white space. The bound on nested calls
  is the length of the text plus one.
\<close>

definition JSON_parse :: "string \<Rightarrow> json option" where
  "JSON_parse s =
     (case parse_value (Suc (length s)) (skip_ws s) of
        None \<Rightarrow> None
      | Some (v, r) \<Rightarrow> if skip_ws r = [] then Some v else None)"

text \<open>A member line: key, colon, space, string value.\<close>

definition member_text :: "string \<times> string \<Rightarrow> string" where
  "member_text m = QuoteJSONString (fst m) @ '': '' @ QuoteJSONString (snd m)"

text \<open>An object all of whose members are strings, given by its keys and values.\<close>

definition flat_object :: "(string \<times> string) list \<Rightarrow> json" where
  "flat_object ms = JObject (map (\<lambda>m. (fst m, JString (snd m))) ms)"

text \<open>The keys and values of the object built for one search result.\<close>

definition search_fields :: "SearchedGyazoImage \<Rightarrow> (string \<times> string) list" where
  "search_fields img =
     [(''uri'', resource_uri (s_image_id img)),
      (''mimeType'', ''image/'' @ s_type img),
      (''permalink_url'', s_permalink_url img),
      (''url'', s_url img),
      (''thumb_url'', s_thumb_url img),
      (''created_at'', s_created_at img),
      (''alt_text'', s_alt_text img)]"

text \<open>An upstream whose search finds two images, for a concrete run.\<close>

definition found_images :: "SearchedGyazoImage list" where
  "found_images =
     [\<lparr> s_image_id = ''abc'', s_permalink_url = ''https://gyazo.com/abc'',
        s_url = ''https://i.gyazo.com/abc.png'', s_access_policy = None, s_type = ''png'',
        s_thumb_url = ''https://thumb.gyazo.com/thumb/200/abc.jpg'',
        s_created_at = ''2025-02-14T12:04:26+0000'', s_alt_text = [] \<rparr>,
      \<lparr> s_image_id = ''def'', s_permalink_url = ''https://gyazo.com/def'',
        s_url = ''https://i.gyazo.com/def.jpg'', s_access_policy = Some ''only_me'',
        s_type = ''jpg'', s_thumb_url = ''https://thumb.gyazo.com/thumb/200/def.jpg'',
        s_created_at = ''2025-02-15T08:00:00+0000'',
        s_alt_text = ''a '' @ [dquote] @ ''cat'' @ [dquote, newline] @ ''on a mat'' \<rparr>]"

definition found_upstream :: runtime where
  "found_upstream = empty_upstream \<lparr> fetch_search := (\<lambda>u. Inr (Some found_images)) \<rparr>"

section \<open>Resource URIs\<close>

lemma replace_first_prefix: "replace_first pat rep (pat @ s) = rep @ s"
proof (cases "pat @ s")
  case Nil
  then show ?thesis by simp
next
  case (Cons c cs)
  have "prefix pat (c # cs)" using Cons by (metis prefixI)
  moreover have "drop (length pat) (c # cs) = s" using Cons by (metis append_eq_conv_conj)
  ultimately show ?thesis using Cons by simp
qed

lemma replace_first_absent: "\<not> sublist pat s \<Longrightarrow> replace_first pat rep s = s"
proof (induction s)
  case Nil
  then show ?case by auto
next
  case (Cons c cs)
  then show ?case by (auto simp: sublist_Cons_right)
qed

lemma replace_first_at_first:
  "\<forall>i<length a. \<not> prefix pat (drop i (a @ pat @ b)) \<Longrightarrow>
   replace_first pat rep (a @ pat @ b) = a @ rep @ b"
proof (induction a)
  case Nil
  then show ?case by (simp add: replace_first_prefix)
next
  case (Cons c a)
  have "\<not> prefix pat ((c # a) @ pat @ b)" using Cons.prems by force
  moreover have "\<forall>i<length a. \<not> prefix pat (drop i (a @ pat @ b))"
    using Cons.prems by force
  ultimately show ?case using Cons.IH by simp
qed

lemma strip_scheme_resource_uri: "strip_scheme (resource_uri ident) = ident"
  unfolding strip_scheme_def resource_uri_def by (rule replace_first_prefix [of _ "[]", simplified])

lemma ReadResource_first_call:
  "take 1 (fst (ReadResource rt uri))
   = [Get (''https://api.gyazo.com/api/images/'' @ strip_scheme uri @ ''?''
           @ URLSearchParams_toString rt [(''access_token'', GYAZO_ACCESS_TOKEN rt)])]"
  unfolding ReadResource_def by (simp add: Let_def split: sum.splits option.splits)

text \<open>
  Claim C3. The list handler gives an image the URI made of the scheme prefix and the
  identifier; stripping the prefix from that URI, as the read handler does, gives the
  identifier back, and the read handler asks the upstream for exactly that identifier.
\<close>

theorem strip_resource_uri:
  "resource_uri_of (to_resource g) = ''gyazo-mcp:///'' @ image_id g
   \<and> strip_scheme (resource_uri_of (to_resource g)) = image_id g
   \<and> take 1 (fst (ReadResource rt (resource_uri_of (to_resource g))))
       = [Get (''https://api.gyazo.com/api/images/'' @ image_id g @ ''?''
               @ URLSearchParams_toString rt [(''access_token'', GYAZO_ACCESS_TOKEN rt)])]"
proof -
  have a: "resource_uri_of (to_resource g) = resource_uri (image_id g)"
    by (simp add: to_resource_def)
  show ?thesis
    unfolding a ReadResource_first_call strip_scheme_resource_uri
    by (simp add: resource_uri_def scheme_prefix_def)
qed

text \<open>
  Claim C9. The read handler does not check that the URI starts with the scheme prefix.
  A URI that does not contain \<open>gyazo-mcp:///\<close> is used unchanged as the identifier of
  the upstream request, which is issued; and of a URI that contains it, only the first
  occurrence is removed, wherever it stands.
\<close>

theorem read_uri_without_prefix:
  "(\<not> sublist ''gyazo-mcp:///'' uri \<longrightarrow>
      strip_scheme uri = uri
      \<and> take 1 (fst (ReadResource rt uri))
          = [Get (''https://api.gyazo.com/api/images/'' @ uri @ ''?''
                  @ URLSearchParams_toString rt [(''access_token'', GYAZO_ACCESS_TOKEN rt)])])
   \<and> ((\<forall>i<length a. \<not> prefix ''gyazo-mcp:///'' (drop i (a @ ''gyazo-mcp:///'' @ b))) \<longrightarrow>
      strip_scheme (a @ ''gyazo-mcp:///'' @ b) = a @ b)"
proof (intro conjI impI)
  assume n: "\<not> sublist ''gyazo-mcp:///'' uri"
  then show s: "strip_scheme uri = uri"
    unfolding strip_scheme_def scheme_prefix_def by (rule replace_first_absent)
  show "take 1 (fst (ReadResource rt uri))
          = [Get (''https://api.gyazo.com/api/images/'' @ uri @ ''?''
                  @ URLSearchParams_toString rt [(''access_token'', GYAZO_ACCESS_TOKEN rt)])]"
    unfolding ReadResource_first_call s ..
next
  assume "\<forall>i<length a. \<not> prefix ''gyazo-mcp:///'' (drop i (a @ ''gyazo-mcp:///'' @ b))"
  then show "strip_scheme (a @ ''gyazo-mcp:///'' @ b) = a @ b"
    unfolding strip_scheme_def scheme_prefix_def
    using replace_first_at_first [of a "''gyazo-mcp:///''" b "[]"] by simp
qed

theorem read_uri_without_prefix_witness:
  "\<not> sublist ''gyazo-mcp:///'' ''abc''
   \<and> strip_scheme ''abc'' = ''abc''
   \<and> take 1 (fst (ReadResource empty_upstream ''abc''))
       = [Get ''https://api.gyazo.com/api/images/abc?access_token=token'']
   \<and> strip_scheme (''x/'' @ ''gyazo-mcp:///'' @ ''gyazo-mcp:///y'') = ''x/gyazo-mcp:///y''"
proof -
  have h1: "\<not> sublist ''gyazo-mcp:///'' ''abc''"
    by (simp add: sublist_Cons_right)
  have h2: "\<forall>i<length ''x/''. \<not> prefix ''gyazo-mcp:///'' (drop i (''x/'' @ ''gyazo-mcp:///'' @ ''gyazo-mcp:///y''))"
    by (simp add: less_Suc_eq)
  show ?thesis
    using h1 h2
      read_uri_without_prefix [of "''abc''" empty_upstream "''x/''" "''gyazo-mcp:///y''"]
    by (simp add: empty_upstream_def plain_query_def)
qed

section \<open>Errors of the handlers\<close>

text \<open>
  Claim C6. When the upstream answers the request for the identifier with \<open>null\<close>, the
  read handler throws the error \<open>Image <id> not found\<close>, with the stripped identifier,
  and the request for the identifier is the only upstream request: the bytes are not
  fetched.
\<close>

theorem read_not_found:
  assumes "target = ''https://api.gyazo.com/api/images/'' @ strip_scheme uri @ ''?''
             @ URLSearchParams_toString rt [(''access_token'', GYAZO_ACCESS_TOKEN rt)]"
    and "fetch_image rt target = Inr None"
  shows "ReadResource rt uri
         = ([Get target], Inl (JsError (''Image '' @ strip_scheme uri @ '' not found'')))"
  using assms unfolding ReadResource_def
  by (simp add: Let_def read_catch_def)

theorem read_not_found_witness:
  "ReadResource empty_upstream ''gyazo-mcp:///abc''
   = ([Get ''https://api.gyazo.com/api/images/abc?access_token=token''],
      Inl (JsError ''Image abc not found''))"
proof -
  have s: "strip_scheme ''gyazo-mcp:///abc'' = ''abc''"
    by (simp add: strip_scheme_def scheme_prefix_def)
  have h: "fetch_image empty_upstream ''https://api.gyazo.com/api/images/abc?access_token=token''
           = Inr None"
    by (simp add: empty_upstream_def)
  show ?thesis
    using read_not_found [of "''https://api.gyazo.com/api/images/abc?access_token=token''"
        "''gyazo-mcp:///abc''" empty_upstream] h
    by (simp add: s) (simp add: empty_upstream_def plain_query_def)
qed

text \<open>
  Claim C7. When the upstream answers the list request of \<open>gyazo_latest_image\<close> (page 1,
  one image per page) with \<open>null\<close> or an empty array, the tool throws the error
  \<open>Image not found\<close>, and the list request is the only upstream request.
\<close>

theorem latest_image_empty:
  assumes "params_name params = ''gyazo_latest_image''"
    and "target = ''https://api.gyazo.com/api/images?''
           @ URLSearchParams_toString rt
               [(''access_token'', GYAZO_ACCESS_TOKEN rt), (''page'', ''1''), (''per_page'', ''1'')]"
    and "fetch_images rt target = Inr None \<or> fetch_images rt target = Inr (Some [])"
  shows "CallTool rt params = ([Get target], Inl (JsError ''Image not found''))"
  using assms unfolding CallTool_def gyazo_latest_image_def
  by (auto simp: Let_def)

theorem latest_image_empty_witness:
  "CallTool empty_upstream \<lparr> params_name = ''gyazo_latest_image'', params_arguments = None \<rparr>
   = ([Get ''https://api.gyazo.com/api/images?access_token=token&page=1&per_page=1''],
      Inl (JsError ''Image not found''))"
proof -
  have h: "fetch_images empty_upstream
             ''https://api.gyazo.com/api/images?access_token=token&page=1&per_page=1''
           = Inr (Some [])"
    by (simp add: empty_upstream_def)
  show ?thesis
    using latest_image_empty
        [of "\<lparr> params_name = ''gyazo_latest_image'', params_arguments = None \<rparr>"
          "''https://api.gyazo.com/api/images?access_token=token&page=1&per_page=1''"
          empty_upstream] h
    by simp (simp add: empty_upstream_def plain_query_def)
qed

text \<open>
  Claim C8. A call-tool request whose tool name is none of \<open>gyazo_search\<close>,
  \<open>gyazo_latest_image\<close> and \<open>gyazo_upload\<close> throws the error \<open>Tool <name> not found\<close>
  and issues no upstream request.
\<close>

theorem unknown_tool:
  assumes "params_name params \<noteq> ''gyazo_search''"
    and "params_name params \<noteq> ''gyazo_latest_image''"
    and "params_name params \<noteq> ''gyazo_upload''"
  shows "CallTool rt params = ([], Inl (JsError (''Tool '' @ params_name params @ '' not found'')))"
  using assms unfolding CallTool_def by simp

theorem unknown_tool_witness:
  "CallTool empty_upstream \<lparr> params_name = ''gyazo_delete'', params_arguments = None \<rparr>
   = ([], Inl (JsError ''Tool gyazo_delete not found''))"
  using unknown_tool [of "\<lparr> params_name = ''gyazo_delete'', params_arguments = None \<rparr>"
      empty_upstream]
  by simp

section \<open>The search tool\<close>

text \<open>
  Claim C4. When the arguments of \<open>gyazo_search\<close> are valid and the upstream answers
  the search request with \<open>null\<close> or an empty array, the tool returns, without an error,
  the single text part \<open>No images found\<close>.
\<close>

theorem search_empty:
  assumes "params_name params = ''gyazo_search''"
    and "params_arguments params = Some args"
    and "args ''query'' = JStr query"
    and "target = ''https://api.gyazo.com/api/search?''
           @ URLSearchParams_toString rt
               [(''access_token'', GYAZO_ACCESS_TOKEN rt), (''query'', query),
                (''page'', number_or (args ''page'') ''1''),
                (''per'', number_or (args ''per'') ''20'')]"
    and "fetch_search rt target = Inr None \<or> fetch_search rt target = Inr (Some [])"
  shows "CallTool rt params = ([Get target], Inr [TextPart ''No images found''])"
  using assms unfolding CallTool_def gyazo_search_def
  by (auto simp: Let_def)

theorem search_empty_witness:
  "CallTool empty_upstream
     \<lparr> params_name = ''gyazo_search'', params_arguments = Some (query_only ''cat'') \<rparr>
   = ([Get ''https://api.gyazo.com/api/search?access_token=token&query=cat&page=1&per=20''],
      Inr [TextPart ''No images found''])"
proof -
  have h: "fetch_search empty_upstream
             ''https://api.gyazo.com/api/search?access_token=token&query=cat&page=1&per=20''
           = Inr (Some [])"
    by (simp add: empty_upstream_def)
  show ?thesis
    using search_empty
        [of "\<lparr> params_name = ''gyazo_search'', params_arguments = Some (query_only ''cat'') \<rparr>"
          "query_only ''cat''" "''cat''"
          "''https://api.gyazo.com/api/search?access_token=token&query=cat&page=1&per=20''"
          empty_upstream] h
    by (simp add: query_only_def number_or_def)
       (simp add: empty_upstream_def plain_query_def)
qed

section \<open>The image data of the upload tool\<close>

lemma strip_prefix_Some: "strip_prefix p s = Some r \<longleftrightarrow> s = p @ r"
  unfolding strip_prefix_def by (auto simp: prefix_def)

lemma strip_prefix_None: "strip_prefix p s = None \<longleftrightarrow> \<not> prefix p s"
  unfolding strip_prefix_def by simp

lemma semicolon_not_word: "\<not> is_word_char CHR '';''"
  by (simp add: is_word_char_def)

lemma match_data_uri_iff:
  "match_data_uri s = Some (w, rest) \<longleftrightarrow> data_uri_parts s w rest"
proof
  assume m: "match_data_uri s = Some (w, rest)"
  then obtain r where r: "s = ''data:image/'' @ r"
    unfolding match_data_uri_def
    by (cases "strip_prefix ''data:image/'' s") (auto simp: strip_prefix_Some)
  have sp: "strip_prefix ''data:image/'' s = Some r"
    using r by (simp only: strip_prefix_Some)
  from m have w: "w = takeWhile is_word_char r" and ne: "w \<noteq> []"
    and d: "strip_prefix '';base64,'' (dropWhile is_word_char r) = Some rest"
    unfolding match_data_uri_def sp
    by (auto simp: Let_def split: if_splits option.splits)
  have "r = w @ dropWhile is_word_char r" by (simp add: w)
  moreover have "dropWhile is_word_char r = '';base64,'' @ rest"
    using d by (simp only: strip_prefix_Some)
  moreover have "list_all is_word_char w"
    unfolding w list_all_iff by (auto dest: set_takeWhileD)
  ultimately show "data_uri_parts s w rest"
    unfolding data_uri_parts_def using r ne by simp
next
  assume p: "data_uri_parts s w rest"
  then have s: "s = ''data:image/'' @ (w @ CHR '';'' # ''base64,'' @ rest)"
    and ne: "w \<noteq> []" and all: "\<forall>c\<in>set w. is_word_char c"
    by (auto simp: data_uri_parts_def list_all_iff)
  have sp: "strip_prefix ''data:image/'' s = Some (w @ CHR '';'' # ''base64,'' @ rest)"
    using s by (simp only: strip_prefix_Some)
  have t: "takeWhile is_word_char (w @ CHR '';'' # ''base64,'' @ rest) = w"
    using all semicolon_not_word by (simp add: takeWhile_tail)
  have d: "dropWhile is_word_char (w @ CHR '';'' # ''base64,'' @ rest) = '';base64,'' @ rest"
    using all semicolon_not_word by (simp add: dropWhile_append3)
  have sp2: "strip_prefix '';base64,'' ('';base64,'' @ rest) = Some rest"
    by (simp only: strip_prefix_Some)
  show "match_data_uri s = Some (w, rest)"
    unfolding match_data_uri_def sp by (simp only: t d sp2 Let_def option.case ne if_False)
qed

lemma match_data_uri_None:
  "match_data_uri s = None \<longleftrightarrow> (\<forall>sub rest. \<not> data_uri_parts s sub rest)"
proof (cases "match_data_uri s")
  case None
  then show ?thesis using match_data_uri_iff [of s] by simp
next
  case (Some p)
  then show ?thesis using match_data_uri_iff [of s "fst p" "snd p"] by auto
qed

lemma upload_file_match:
  assumes "data_uri_parts s sub rest"
  shows "imageType s = sub" and "replace_data_uri s = rest"
    and "upload_file now s
         = FormFile (base64_decode rest) (''screenshot_'' @ decimal now @ ''.'' @ sub)
             (''image/'' @ sub)"
proof -
  have m: "match_data_uri s = Some (sub, rest)" using assms by (simp add: match_data_uri_iff)
  have ne: "sub \<noteq> []" using assms by (simp add: data_uri_parts_def)
  show a: "imageType s = sub" by (simp add: imageType_def typeMatch_def m ne)
  show b: "replace_data_uri s = rest" by (simp add: replace_data_uri_def m)
  show "upload_file now s
         = FormFile (base64_decode rest) (''screenshot_'' @ decimal now @ ''.'' @ sub)
             (''image/'' @ sub)"
    by (simp add: upload_file_def a b Let_def)
qed

lemma upload_file_no_match:
  assumes "match_data_uri s = None"
  shows "imageType s = ''png''" and "replace_data_uri s = s"
    and "upload_file now s
         = FormFile (base64_decode s) (''screenshot_'' @ decimal now @ ''.png'') ''image/png''"
proof -
  show a: "imageType s = ''png''" by (simp add: imageType_def typeMatch_def assms)
  show b: "replace_data_uri s = s" by (simp add: replace_data_uri_def assms)
  show "upload_file now s
         = FormFile (base64_decode s) (''screenshot_'' @ decimal now @ ''.png'') ''image/png''"
    by (simp add: upload_file_def a b Let_def)
qed

lemma decode_QUJD: "base64_decode ''QUJD'' = bytes_of ''ABC''"
  by (simp add: base64_decode_def unbase64_def base64_alphabet_def bytes_of_def)

text \<open>
  Claim C2. If \<open>imageData\<close> is \<open>data:image/\<close>, a non-empty subtype of word characters,
  \<open>;base64,\<close> and a payload, then the subtype is the image type and the payload alone
  is decoded; if it has no such form, the image type is \<open>png\<close> and the whole string is
  decoded. So \<open>data:image/jpeg;base64,QUJD\<close> gives type \<open>jpeg\<close> and the bytes of
  \<open>ABC\<close>, and \<open>QUJD\<close> gives type \<open>png\<close> and the same bytes.
\<close>

theorem upload_parsing:
  "(data_uri_parts s sub rest \<longrightarrow>
      imageType s = sub \<and> replace_data_uri s = rest
      \<and> upload_file now s
          = FormFile (base64_decode rest) (''screenshot_'' @ decimal now @ ''.'' @ sub)
              (''image/'' @ sub))
   \<and> ((\<forall>sub rest. \<not> data_uri_parts s sub rest) \<longrightarrow>
      imageType s = ''png'' \<and> replace_data_uri s = s
      \<and> upload_file now s
          = FormFile (base64_decode s) (''screenshot_'' @ decimal now @ ''.png'') ''image/png'')
   \<and> upload_file now ''data:image/jpeg;base64,QUJD''
       = FormFile (bytes_of ''ABC'') (''screenshot_'' @ decimal now @ ''.jpeg'') ''image/jpeg''
   \<and> upload_file now ''QUJD''
       = FormFile (bytes_of ''ABC'') (''screenshot_'' @ decimal now @ ''.png'') ''image/png''"
proof (intro conjI impI)
  assume p: "data_uri_parts s sub rest"
  show "imageType s = sub" by (rule upload_file_match(1) [OF p])
  show "replace_data_uri s = rest" by (rule upload_file_match(2) [OF p])
  show "upload_file now s
          = FormFile (base64_decode rest) (''screenshot_'' @ decimal now @ ''.'' @ sub)
              (''image/'' @ sub)"
    by (rule upload_file_match(3) [OF p])
next
  assume "\<forall>sub rest. \<not> data_uri_parts s sub rest"
  then have n: "match_data_uri s = None" by (rule iffD2 [OF match_data_uri_None])
  show "imageType s = ''png''" by (rule upload_file_no_match(1) [OF n])
  show "replace_data_uri s = s" by (rule upload_file_no_match(2) [OF n])
  show "upload_file now s
          = FormFile (base64_decode s) (''screenshot_'' @ decimal now @ ''.png'') ''image/png''"
    by (rule upload_file_no_match(3) [OF n])
next
  have p: "data_uri_parts ''data:image/jpeg;base64,QUJD'' ''jpeg'' ''QUJD''"
    by (simp add: data_uri_parts_def is_word_char_def)
  show "upload_file now ''data:image/jpeg;base64,QUJD''
       = FormFile (bytes_of ''ABC'') (''screenshot_'' @ decimal now @ ''.jpeg'') ''image/jpeg''"
    using upload_file_match(3) [OF p, of now] by (simp add: decode_QUJD)
next
  have n: "match_data_uri ''QUJD'' = None"
    by (simp add: match_data_uri_def strip_prefix_def)
  show "upload_file now ''QUJD''
       = FormFile (bytes_of ''ABC'') (''screenshot_'' @ decimal now @ ''.png'') ''image/png''"
    using upload_file_no_match(3) [OF n, of now] by (simp add: decode_QUJD)
qed

theorem upload_parsing_witness:
  "data_uri_parts ''data:image/gif;base64,QUJD'' ''gif'' ''QUJD''
   \<and> imageType ''data:image/gif;base64,QUJD'' = ''gif''
   \<and> replace_data_uri ''data:image/gif;base64,QUJD'' = ''QUJD''
   \<and> upload_file 7 ''data:image/gif;base64,QUJD''
       = FormFile (bytes_of ''ABC'') ''screenshot_7.gif'' ''image/gif''
   \<and> imageType ''QUJD'' = ''png'' \<and> replace_data_uri ''QUJD'' = ''QUJD''
   \<and> upload_file 7 ''QUJD'' = FormFile (bytes_of ''ABC'') ''screenshot_7.png'' ''image/png''"
proof -
  have h1: "data_uri_parts ''data:image/gif;base64,QUJD'' ''gif'' ''QUJD''"
    by (simp add: data_uri_parts_def is_word_char_def)
  have h2: "\<forall>sub rest. \<not> data_uri_parts ''QUJD'' sub rest"
    by (simp add: data_uri_parts_def)
  have d: "decimal 7 = ''7''"
    by (simp add: decimal.simps digit_char_def)
  show ?thesis
    using h1 h2 upload_parsing [of "''data:image/gif;base64,QUJD''" "''gif''" "''QUJD''" 7]
      upload_parsing [of "''QUJD''" "''gif''" "''QUJD''" 7]
    by (simp add: d decode_QUJD)
qed

lemma first_delimiter:
  assumes eq: "w @ (x # p) @ r = sub @ (x # p) @ rest"
    and allw: "\<forall>c\<in>set w. P c" and c: "\<exists>c\<in>set sub. \<not> P c"
    and nosub: "\<not> sublist (x # p) sub" and x: "x \<notin> set p"
  shows False
proof -
  from eq have "\<exists>u. (w = sub @ u \<and> u @ (x # p) @ r = (x # p) @ rest)
      \<or> (w @ u = sub \<and> (x # p) @ r = u @ (x # p) @ rest)"
    by (simp only: append_eq_append_conv2)
  then obtain u where "(w = sub @ u \<and> u @ (x # p) @ r = (x # p) @ rest)
      \<or> (w @ u = sub \<and> (x # p) @ r = u @ (x # p) @ rest)" ..
  then show False
  proof
    assume "w = sub @ u \<and> u @ (x # p) @ r = (x # p) @ rest"
    then have "set sub \<subseteq> set w" by auto
    then show False using allw c by auto
  next
    assume h: "w @ u = sub \<and> (x # p) @ r = u @ (x # p) @ rest"
    then have sub: "sub = w @ u" and e2: "(x # p) @ r = u @ (x # p) @ rest" by auto
    have une: "u \<noteq> []" using sub allw c by auto
    from e2 have "\<exists>v. ((x # p) = u @ v \<and> v @ r = (x # p) @ rest)
        \<or> ((x # p) @ v = u \<and> r = v @ (x # p) @ rest)"
      by (simp only: append_eq_append_conv2)
    then obtain v where "((x # p) = u @ v \<and> v @ r = (x # p) @ rest)
        \<or> ((x # p) @ v = u \<and> r = v @ (x # p) @ rest)" ..
    then show False
    proof
      assume "(x # p) @ v = u \<and> r = v @ (x # p) @ rest"
      then have "sub = w @ (x # p) @ v" using sub by simp
      then have "sublist (x # p) sub" unfolding sublist_def by blast
      then show False using nosub by simp
    next
      assume k: "(x # p) = u @ v \<and> v @ r = (x # p) @ rest"
      have "v \<noteq> []"
      proof
        assume "v = []"
        then have "sub = w @ (x # p) @ []" using k sub by simp
        then have "sublist (x # p) sub" unfolding sublist_def by blast
        then show False using nosub by simp
      qed
      then obtain y v' where v: "v = y # v'" by (cases v) auto
      then have "y = x" using k by simp
      moreover from une obtain z u' where "u = z # u'" by (cases u) auto
      then have "p = u' @ v" using k by simp
      then have "y \<in> set p" using v by simp
      ultimately show False using x by simp
    qed
  qed
qed

lemma no_match_nonword:
  assumes s: "s = ''data:image/'' @ sub @ '';base64,'' @ rest"
    and nosub: "\<not> sublist '';base64,'' sub"
    and c: "\<exists>c\<in>set sub. \<not> is_word_char c"
  shows "match_data_uri s = None"
proof (rule ccontr)
  assume "match_data_uri s \<noteq> None"
  then obtain w r where "match_data_uri s = Some (w, r)" by auto
  then have "data_uri_parts s w r" by (simp only: match_data_uri_iff)
  then have eq: "w @ '';base64,'' @ r = sub @ '';base64,'' @ rest"
    and allw: "\<forall>c\<in>set w. is_word_char c"
    using s by (auto simp: data_uri_parts_def list_all_iff)
  show False
    by (rule first_delimiter [OF eq allw c nosub]) simp
qed

text \<open>
  Claim C10. The pattern takes word characters only as the subtype. If \<open>imageData\<close>
  is \<open>data:image/\<close>, a subtype, \<open>;base64,\<close> and a payload, where the subtype (the text
  before the first \<open>;base64,\<close>) has a character that is no word character, the pattern
  does not match: the image type is \<open>png\<close> and the whole string, prefix included, is
  decoded as base64.
\<close>

theorem non_word_subtype:
  assumes "s = ''data:image/'' @ sub @ '';base64,'' @ rest"
    and "\<not> sublist '';base64,'' sub"
    and "\<exists>c\<in>set sub. \<not> is_word_char c"
  shows "match_data_uri s = None \<and> imageType s = ''png'' \<and> replace_data_uri s = s
         \<and> upload_file now s
             = FormFile (base64_decode s) (''screenshot_'' @ decimal now @ ''.png'') ''image/png''"
  using no_match_nonword [OF assms] upload_file_no_match by blast

theorem non_word_subtype_witness:
  "match_data_uri ''data:image/svg+xml;base64,QUJD'' = None
   \<and> imageType ''data:image/svg+xml;base64,QUJD'' = ''png''
   \<and> replace_data_uri ''data:image/svg+xml;base64,QUJD'' = ''data:image/svg+xml;base64,QUJD''
   \<and> upload_file 7 ''data:image/svg+xml;base64,QUJD''
       = FormFile (base64_decode ''data:image/svg+xml;base64,QUJD'') ''screenshot_7.png''
           ''image/png''"
proof -
  have h1: "''data:image/svg+xml;base64,QUJD'' = ''data:image/'' @ ''svg+xml'' @ '';base64,'' @ ''QUJD''"
    by simp
  have h2: "\<not> sublist '';base64,'' ''svg+xml''"
    by (simp add: sublist_Cons_right)
  have h3: "\<exists>c\<in>set ''svg+xml''. \<not> is_word_char c"
    by (simp add: is_word_char_def)
  have d: "decimal 7 = ''7''"
    by (simp add: decimal.simps digit_char_def)
  show ?thesis
    using non_word_subtype [OF h1 h2 h3, of 7] by (simp add: d)
qed

section \<open>The Markdown metadata block\<close>

lemma markdown_sections:
  "getImageMetadataMarkdown g = render_sections (present_sections g)"
  by (simp add: getImageMetadataMarkdown_def append_if_def md_fields_def present_sections_def
      render_sections_def Let_def)

lemma split_lines_ne: "split_lines s \<noteq> []"
  by (induction s) (auto split: list.splits)

lemma split_lines_append: "split_lines (a @ newline # b) = split_lines a @ split_lines b"
proof (induction a)
  case Nil
  then show ?case by simp
next
  case (Cons c a)
  then show ?case using split_lines_ne [of a] by (cases "split_lines a") auto
qed

lemma split_lines_one: "newline \<notin> set h \<Longrightarrow> split_lines h = [h]"
  by (induction h) auto

lemma split_lines_section:
  "newline \<notin> set h \<Longrightarrow>
   split_lines (md_section h v @ rest) = [h] @ split_lines v @ [[]] @ split_lines rest"
proof -
  assume h: "newline \<notin> set h"
  have "md_section h v @ rest = h @ newline # (v @ newline # ([] @ newline # rest))"
    by (simp add: md_section_def)
  then show ?thesis
    by (simp only: split_lines_append split_lines_one [OF h] split_lines.simps(1))
qed

lemma h3_lines_render:
  assumes "\<forall>x\<in>set xs. newline \<notin> set (fst x) \<and> is_h3 (fst x) \<and> no_h3_line (snd x)"
  shows "filter is_h3 (split_lines (render_sections xs @ rest))
         = map fst xs @ filter is_h3 (split_lines rest)"
  using assms
proof (induction xs)
  case Nil
  then show ?case by (simp add: render_sections_def)
next
  case (Cons x xs)
  have r: "render_sections (x # xs) @ rest = md_section (fst x) (snd x) @ (render_sections xs @ rest)"
    by (simp add: render_sections_def)
  have nl: "newline \<notin> set (fst x)" and h: "is_h3 (fst x)" and v: "no_h3_line (snd x)"
    using Cons.prems by auto
  have fv: "filter is_h3 (split_lines (snd x)) = []"
    using v by (simp add: no_h3_line_def list_all_iff filter_empty_conv)
  have e: "\<not> is_h3 []" by (simp add: is_h3_def)
  show ?case
    unfolding r split_lines_section [OF nl]
    using Cons.IH Cons.prems h fv e by simp
qed

lemma present_headings:
  "x \<in> set (present_sections g) \<Longrightarrow> newline \<notin> set (fst x) \<and> is_h3 (fst x)"
proof -
  assume "x \<in> set (present_sections g)"
  then have "fst x \<in> fst ` set (md_fields g)"
    by (force simp: present_sections_def)
  then have "fst x \<in> {''### Title:'', ''### Description:'', ''### App:'', ''### URL:'',
                     ''### OCR:'', ''### Locale:''}"
    by (simp add: md_fields_def)
  then show ?thesis by (auto simp: is_h3_def newline_def)
qed

text \<open>
  Claim C1, as stated, fails: the block has exactly one level-3 heading for every present
  field and none for an absent one only if no field value brings a heading line of its
  own. An image without a title whose description holds the line \<open>### Title:\<close> gets a
  block with two level-3 headings, one of them \<open>### Title:\<close>, for one present field.
\<close>

theorem markdown_headings_counterexample:
  "\<not> truthy (metadata_title (metadata heading_in_value))
   \<and> getImageMetadataMarkdown heading_in_value
       = ''### Description:'' @ [newline] @ ''see'' @ [newline] @ ''### Title:'' @ [newline, newline]
   \<and> filter is_h3 (split_lines (getImageMetadataMarkdown heading_in_value))
       = [''### Description:'', ''### Title:'']
   \<and> map fst (present_sections heading_in_value) = [''### Description:'']"
  by (simp add: heading_in_value_def getImageMetadataMarkdown_def append_if_def md_section_def
      ocr_description_opt_def ocr_locale_opt_def present_sections_def md_fields_def
      is_h3_def newline_def Let_def)

text \<open>
  Claim C1, amended. The block is the concatenation, in the order title, description, app,
  url, OCR text, OCR locale, of one section for every field that is present and not
  empty, each section being the heading line, the value and a blank line. If no line of
  a present value starts with \<open>### \<close>, the level-3 heading lines of the block are the
  headings of the present fields, once each and in that order. The blocks of two images
  put together are the sections of the first followed by the sections of the second,
  and so are their heading lines.
\<close>

theorem markdown_block:
  "getImageMetadataMarkdown g = render_sections (present_sections g)
   \<and> (h3_clean g \<longrightarrow>
        filter is_h3 (split_lines (getImageMetadataMarkdown g)) = map fst (present_sections g))
   \<and> getImageMetadataMarkdown g @ getImageMetadataMarkdown g'
       = render_sections (present_sections g @ present_sections g')
   \<and> (h3_clean g \<and> h3_clean g' \<longrightarrow>
        filter is_h3 (split_lines (getImageMetadataMarkdown g @ getImageMetadataMarkdown g'))
        = map fst (present_sections g) @ map fst (present_sections g'))"
proof (intro conjI impI)
  show "getImageMetadataMarkdown g = render_sections (present_sections g)"
    by (rule markdown_sections)
  show "getImageMetadataMarkdown g @ getImageMetadataMarkdown g'
       = render_sections (present_sections g @ present_sections g')"
    by (simp add: markdown_sections render_sections_def)
next
  assume c: "h3_clean g"
  have "\<forall>x\<in>set (present_sections g).
          newline \<notin> set (fst x) \<and> is_h3 (fst x) \<and> no_h3_line (snd x)"
    using c present_headings [of _ g] by (auto simp: h3_clean_def list_all_iff)
  from h3_lines_render [OF this, of "[]"]
  show "filter is_h3 (split_lines (getImageMetadataMarkdown g)) = map fst (present_sections g)"
    by (simp add: markdown_sections is_h3_def)
next
  assume c: "h3_clean g \<and> h3_clean g'"
  have "\<forall>x\<in>set (present_sections g @ present_sections g').
          newline \<notin> set (fst x) \<and> is_h3 (fst x) \<and> no_h3_line (snd x)"
    using c present_headings [of _ g] present_headings [of _ g']
    by (auto simp: h3_clean_def list_all_iff)
  from h3_lines_render [OF this, of "[]"]
  show "filter is_h3 (split_lines (getImageMetadataMarkdown g @ getImageMetadataMarkdown g'))
        = map fst (present_sections g) @ map fst (present_sections g')"
    by (simp add: markdown_sections render_sections_def is_h3_def)
qed

theorem markdown_block_witness:
  "h3_clean titled_image
   \<and> getImageMetadataMarkdown titled_image
       = ''### Title:'' @ [newline] @ ''Home'' @ [newline, newline]
         @ ''### App:'' @ [newline] @ ''Chrome'' @ [newline, newline]
         @ ''### OCR:'' @ [newline] @ ''Gyazo'' @ [newline] @ [newline, newline]
         @ ''### Locale:'' @ [newline] @ ''en'' @ [newline, newline]
   \<and> filter is_h3 (split_lines (getImageMetadataMarkdown titled_image))
       = [''### Title:'', ''### App:'', ''### OCR:'', ''### Locale:'']
   \<and> filter is_h3 (split_lines (getImageMetadataMarkdown titled_image
                                  @ getImageMetadataMarkdown titled_image))
       = [''### Title:'', ''### App:'', ''### OCR:'', ''### Locale:'',
          ''### Title:'', ''### App:'', ''### OCR:'', ''### Locale:'']"
proof -
  have p: "present_sections titled_image
           = [(''### Title:'', ''Home''), (''### App:'', ''Chrome''),
              (''### OCR:'', ''Gyazo'' @ [newline]), (''### Locale:'', ''en'')]"
    by (simp add: present_sections_def md_fields_def titled_image_def ocr_description_opt_def
        ocr_locale_opt_def)
  have h: "h3_clean titled_image"
    unfolding h3_clean_def p by (simp add: no_h3_line_def is_h3_def newline_def)
  note m = markdown_block [of titled_image titled_image]
  have a: "getImageMetadataMarkdown titled_image = render_sections (present_sections titled_image)"
    using m by (rule conjunct1)
  have b: "filter is_h3 (split_lines (getImageMetadataMarkdown titled_image))
           = map fst (present_sections titled_image)"
    by (rule m [THEN conjunct2, THEN conjunct1, THEN mp, OF h])
  have c: "filter is_h3 (split_lines (getImageMetadataMarkdown titled_image
                                      @ getImageMetadataMarkdown titled_image))
           = map fst (present_sections titled_image) @ map fst (present_sections titled_image)"
    by (rule m [THEN conjunct2, THEN conjunct2, THEN conjunct2, THEN mp, OF conjI [OF h h]])
  have d: "render_sections (present_sections titled_image)
           = ''### Title:'' @ [newline] @ ''Home'' @ [newline, newline]
             @ ''### App:'' @ [newline] @ ''Chrome'' @ [newline, newline]
             @ ''### OCR:'' @ [newline] @ ''Gyazo'' @ [newline] @ [newline, newline]
             @ ''### Locale:'' @ [newline] @ ''en'' @ [newline, newline]"
    unfolding p by (simp add: render_sections_def md_section_def)
  have e1: "map fst (present_sections titled_image)
            = [''### Title:'', ''### App:'', ''### OCR:'', ''### Locale:'']"
    unfolding p by simp
  show ?thesis
    apply (intro conjI)
       apply (rule h)
      apply (simp only: a d)
     apply (simp only: b e1)
    apply (simp only: c e1)
    apply simp
    done
qed

section \<open>The JSON text of search results\<close>

lemma hex_value_hex_char: "d < 16 \<Longrightarrow> hex_value (hex_char d) = Some d"
proof -
  assume "d < 16"
  then have "d = 0 \<or> d = 1 \<or> d = 2 \<or> d = 3 \<or> d = 4 \<or> d = 5 \<or> d = 6 \<or> d = 7 \<or> d = 8
      \<or> d = 9 \<or> d = 10 \<or> d = 11 \<or> d = 12 \<or> d = 13 \<or> d = 14 \<or> d = 15"
    by arith
  then show ?thesis
    by (elim disjE) (simp_all add: hex_value_def hex_char_def)
qed

lemma parse_chars_short:
  "unescape e = Some c \<Longrightarrow> e \<noteq> CHR ''u'' \<Longrightarrow> parse_chars X = Some (s, rest) \<Longrightarrow>
   parse_chars (backslash # e # X) = Some (c # s, rest)"
  by (simp add: dquote_def backslash_def)

lemma json_escape_special:
  "json_escape (CHR 0x08) = [backslash, CHR ''b'']"
  "json_escape (CHR 0x09) = [backslash, CHR ''t'']"
  "json_escape (CHR 0x0A) = [backslash, CHR ''n'']"
  "json_escape (CHR 0x0C) = [backslash, CHR ''f'']"
  "json_escape (CHR 0x0D) = [backslash, CHR ''r'']"
  "json_escape dquote = [backslash, dquote]"
  "json_escape backslash = [backslash, backslash]"
  by (simp_all add: json_escape_def dquote_def backslash_def)

lemma unescape_special:
  "unescape (CHR ''b'') = Some (CHR 0x08)"
  "unescape (CHR ''t'') = Some (CHR 0x09)"
  "unescape (CHR ''n'') = Some (CHR 0x0A)"
  "unescape (CHR ''f'') = Some (CHR 0x0C)"
  "unescape (CHR ''r'') = Some (CHR 0x0D)"
  "unescape dquote = Some dquote"
  "unescape backslash = Some backslash"
  by (simp_all add: unescape_def dquote_def backslash_def)

lemma not_u: "dquote \<noteq> CHR ''u''" "backslash \<noteq> CHR ''u''"
  by (simp_all add: dquote_def backslash_def)

lemma parse_chars_escape:
  "parse_chars (concat (map json_escape s) @ dquote # rest) = Some (s, rest)"
proof (induction s)
  case Nil
  then show ?case by simp
next
  case (Cons c s)
  let ?X = "concat (map json_escape s) @ dquote # rest"
  have step: "parse_chars (json_escape c @ ?X) = Some (c # s, rest)"
  proof (cases "c = CHR 0x08 \<or> c = CHR 0x09 \<or> c = CHR 0x0A \<or> c = CHR 0x0C \<or> c = CHR 0x0D
                 \<or> c = dquote \<or> c = backslash")
    case True
    then have "\<exists>e. unescape e = Some c \<and> e \<noteq> CHR ''u'' \<and> json_escape c = [backslash, e]"
    proof (elim disjE)
      assume "c = CHR 0x08"
      then show ?thesis
        using unescape_special(1) json_escape_special(1) by (intro exI [of _ "CHR ''b''"]) simp
    next
      assume "c = CHR 0x09"
      then show ?thesis
        using unescape_special(2) json_escape_special(2) by (intro exI [of _ "CHR ''t''"]) simp
    next
      assume "c = CHR 0x0A"
      then show ?thesis
        using unescape_special(3) json_escape_special(3) by (intro exI [of _ "CHR ''n''"]) simp
    next
      assume "c = CHR 0x0C"
      then show ?thesis
        using unescape_special(4) json_escape_special(4) by (intro exI [of _ "CHR ''f''"]) simp
    next
      assume "c = CHR 0x0D"
      then show ?thesis
        using unescape_special(5) json_escape_special(5) by (intro exI [of _ "CHR ''r''"]) simp
    next
      assume "c = dquote"
      then show ?thesis
        using unescape_special(6) json_escape_special(6) not_u(1) by (intro exI [of _ dquote]) simp
    next
      assume "c = backslash"
      then show ?thesis
        using unescape_special(7) json_escape_special(7) not_u(2)
        by (intro exI [of _ backslash]) simp
    qed
    then obtain e where e: "unescape e = Some c" "e \<noteq> CHR ''u''"
      and j: "json_escape c = [backslash, e]" by blast
    show ?thesis
      unfolding j using parse_chars_short [OF e Cons.IH] by simp
  next
    case False
    note special = this
    show ?thesis
    proof (cases "(of_char c :: nat) < 32")
      case True
      let ?n = "of_char c :: nat"
      have e: "json_escape c = [backslash, CHR ''u'', CHR ''0'', CHR ''0'',
                                hex_char (?n div 16), hex_char (?n mod 16)]"
        using special True by (simp add: json_escape_def)
      have h1: "hex_value (hex_char (?n div 16)) = Some (?n div 16)"
        using True by (intro hex_value_hex_char) simp
      have h0: "hex_value (hex_char (?n mod 16)) = Some (?n mod 16)"
        by (intro hex_value_hex_char) simp
      have z: "hex_value CHR ''0'' = Some 0" by (simp add: hex_value_def)
      have c: "char_of (16 * (?n div 16) + ?n mod 16) = c" by simp
      show ?thesis
        unfolding e using Cons.IH h1 h0 z c
        by (simp add: dquote_def backslash_def)
    next
      case False
      then have e: "json_escape c = [c]" using special by (simp add: json_escape_def)
      show ?thesis unfolding e using Cons.IH special False by simp
    qed
  qed
  then show ?case by simp
qed

lemma skip_ws_ws:
  "list_all is_ws w \<Longrightarrow> \<not> is_ws x \<Longrightarrow> skip_ws (w @ x # r) = x # r"
  unfolding skip_ws_def by (simp add: dropWhile_append3 list_all_iff)

lemma skip_ws_none: "\<not> is_ws x \<Longrightarrow> skip_ws (x # r) = x # r"
  unfolding skip_ws_def by simp

lemma skip_ws_newline:
  "list_all is_ws w \<Longrightarrow> \<not> is_ws x \<Longrightarrow> skip_ws (newline # w @ x # r) = x # r"
  using skip_ws_ws [of "newline # w" x r] by (simp add: is_ws_def newline_def)

lemma not_ws:
  "\<not> is_ws dquote" "\<not> is_ws CHR ''}''" "\<not> is_ws CHR '']''" "\<not> is_ws CHR '',''"
  "\<not> is_ws CHR '':''" "\<not> is_ws CHR ''{''" "\<not> is_ws CHR ''[''"
  by (simp_all add: is_ws_def dquote_def)

lemma parse_value_string:
  "parse_value (Suc n) (QuoteJSONString v @ R) = Some (JString v, R)"
  by (simp add: QuoteJSONString_def parse_chars_escape)

lemma parse_members_step:
  assumes "skip_ws R = y # r3"
  shows "parse_members (Suc (Suc n)) (member_text (k, v) @ R)
         = (if y = CHR ''}'' then Some ([(k, JString v)], r3)
            else if y = CHR '','' then
              (case parse_members (Suc n) (skip_ws r3) of
                 None \<Rightarrow> None
               | Some (ms, r4) \<Rightarrow> Some ((k, JString v) # ms, r4))
            else None)"
proof -
  have t: "member_text (k, v) @ R
           = dquote # (concat (map json_escape k) @ dquote # (CHR '':'' # CHR '' '' # (QuoteJSONString v @ R)))"
    by (simp add: member_text_def QuoteJSONString_def)
  have s1: "skip_ws (CHR '':'' # CHR '' '' # (QuoteJSONString v @ R))
            = CHR '':'' # CHR '' '' # (QuoteJSONString v @ R)"
    by (rule skip_ws_none) (rule not_ws)
  have s2: "skip_ws (CHR '' '' # (QuoteJSONString v @ R)) = QuoteJSONString v @ R"
    by (simp add: skip_ws_def QuoteJSONString_def is_ws_def dquote_def)
  show ?thesis
    unfolding t
    by (simp only: parse_members.simps parse_chars_escape s1 s2 parse_value_string assms
        option.case prod.case list.case if_False if_True not_False_eq_True simp_thms)
qed

lemma parse_members_flat:
  assumes "list_all is_ws ind" and "list_all is_ws ind0"
  shows "ms \<noteq> [] \<Longrightarrow> length ms < n \<Longrightarrow>
         parse_members n (join ('','' @ [newline] @ ind) (map member_text ms)
                          @ [newline] @ ind0 @ ''}'' @ rest)
         = Some (map (\<lambda>m. (fst m, JString (snd m))) ms, rest)"
proof (induction ms arbitrary: n rule: list_nonempty_induct)
  case (single m)
  then obtain n' where n: "n = Suc (Suc n')" by (cases n; cases "n - 1") auto
  have sk: "skip_ws ([newline] @ ind0 @ ''}'' @ rest) = CHR ''}'' # rest"
    using skip_ws_newline [OF assms(2) not_ws(2)] by simp
  show ?case
    unfolding n using parse_members_step [OF sk, of n' "fst m" "snd m"] by simp
next
  case (cons m ms)
  from cons.prems obtain n' where n: "n = Suc (Suc n')" and l: "length ms < Suc n'"
    by (cases n; cases "n - 1") auto
  obtain m' ms' where ms: "ms = m' # ms'" using cons.hyps by (cases ms) auto
  let ?R = "join ('','' @ [newline] @ ind) (map member_text ms) @ [newline] @ ind0 @ ''}'' @ rest"
  have tx: "join ('','' @ [newline] @ ind) (map member_text (m # ms)) @ [newline] @ ind0 @ ''}'' @ rest
             = member_text (fst m, snd m) @ (CHR '','' # newline # ind @ ?R)"
    unfolding ms by simp
  have sk: "skip_ws (CHR '','' # newline # ind @ ?R) = CHR '','' # (newline # ind @ ?R)"
    by (rule skip_ws_none) (rule not_ws)
  have q: "\<exists>T. ?R = dquote # T"
    unfolding ms by (cases ms') (simp_all add: member_text_def QuoteJSONString_def)
  then obtain T where T: "?R = dquote # T" ..
  have sk2: "skip_ws (newline # ind @ ?R) = ?R"
    unfolding T using skip_ws_newline [OF assms(1) not_ws(1)] by simp
  have ih: "parse_members (Suc n') ?R = Some (map (\<lambda>m. (fst m, JString (snd m))) ms, rest)"
    by (rule cons.IH [OF l])
  show ?case
    unfolding tx n
    using sk2 ih by (simp only: parse_members_step [OF sk]) simp
qed

lemma serialize_flat:
  "ms \<noteq> [] \<Longrightarrow>
   serialize ind0 (flat_object ms)
   = CHR ''{'' # newline # (ind0 @ gap)
     @ (join ('','' @ [newline] @ (ind0 @ gap)) (map member_text ms) @ [newline] @ ind0 @ ''}'' @ [])"
  by (simp add: flat_object_def member_text_def [abs_def] comp_def)

lemma join_members_head:
  "ms \<noteq> [] \<Longrightarrow> \<exists>T. join sep (map member_text ms) @ R = dquote # T"
proof -
  assume "ms \<noteq> []"
  then obtain m ms' where ms: "ms = m # ms'" by (cases ms) auto
  show ?thesis
    unfolding ms by (cases ms') (simp_all add: member_text_def QuoteJSONString_def)
qed

lemma gap_ws: "list_all is_ws ind0 \<Longrightarrow> list_all is_ws (ind0 @ gap)"
  by (simp add: gap_def is_ws_def)

lemma parse_value_flat:
  assumes ws: "list_all is_ws ind0" and ne: "ms \<noteq> []" and n: "length ms < n"
  shows "parse_value (Suc n) (serialize ind0 (flat_object ms) @ rest) = Some (flat_object ms, rest)"
proof -
  let ?M = "join ('','' @ [newline] @ (ind0 @ gap)) (map member_text ms)
            @ [newline] @ ind0 @ ''}'' @ rest"
  have tx: "serialize ind0 (flat_object ms) @ rest = CHR ''{'' # (newline # (ind0 @ gap) @ ?M)"
    by (simp add: serialize_flat [OF ne])
  obtain T where T: "?M = dquote # T" using join_members_head [OF ne] by blast
  have sk: "skip_ws (newline # (ind0 @ gap) @ ?M) = dquote # T"
    unfolding T by (rule skip_ws_newline [OF gap_ws [OF ws] not_ws(1)])
  have pm: "parse_members n (dquote # T) = Some (map (\<lambda>m. (fst m, JString (snd m))) ms, rest)"
    unfolding T [symmetric] by (rule parse_members_flat [OF gap_ws [OF ws] ws ne n])
  have d: "CHR ''{'' \<noteq> dquote" "dquote \<noteq> CHR ''}''" by (simp_all add: dquote_def)
  show ?thesis
    unfolding tx
    by (simp only: parse_value.simps sk pm d list.case option.case prod.case if_False
        flat_object_def) simp
qed

lemma serialize_flat_head:
  "ms \<noteq> [] \<Longrightarrow> \<exists>T. serialize ind0 (flat_object ms) = CHR ''{'' # T"
  by (simp add: serialize_flat)

lemma join_objects_head:
  assumes "mss \<noteq> []" and "\<forall>ms\<in>set mss. ms \<noteq> []"
  shows "\<exists>T. join sep (map (\<lambda>ms. serialize ind (flat_object ms)) mss) @ R = CHR ''{'' # T"
proof -
  obtain ms mss' where m: "mss = ms # mss'" using assms(1) by (cases mss) auto
  then have "ms \<noteq> []" using assms(2) by simp
  then obtain T where T: "serialize ind (flat_object ms) = CHR ''{'' # T"
    using serialize_flat_head by blast
  show ?thesis
    unfolding m by (cases mss') (simp_all add: T)
qed

lemma parse_elements_flat:
  assumes ws: "list_all is_ws ind" "list_all is_ws ind0"
  shows "mss \<noteq> [] \<Longrightarrow> \<forall>ms\<in>set mss. ms \<noteq> [] \<and> length ms \<le> m \<Longrightarrow>
         length mss + m + 1 < n \<Longrightarrow>
         parse_elements n (join ('','' @ [newline] @ ind) (map (\<lambda>ms. serialize ind (flat_object ms)) mss)
                           @ [newline] @ ind0 @ '']'' @ rest)
         = Some (map flat_object mss, rest)"
proof (induction mss arbitrary: n rule: list_nonempty_induct)
  case (single ms)
  define n' where "n' = n - 2"
  have ne: "ms \<noteq> []" and lm: "length ms \<le> m" using single.prems by simp_all
  have n: "n = Suc (Suc n')" using single.prems by (simp add: n'_def)
  have l: "length ms < n'" using single.prems(2) lm unfolding n'_def by simp
  have sk: "skip_ws ([newline] @ ind0 @ '']'' @ rest) = CHR '']'' # rest"
    using skip_ws_newline [OF ws(2) not_ws(3)] by simp
  have pv: "parse_value (Suc n') (serialize ind (flat_object ms) @ ([newline] @ ind0 @ '']'' @ rest))
            = Some (flat_object ms, [newline] @ ind0 @ '']'' @ rest)"
    by (rule parse_value_flat [OF ws(1) ne l])
  have c: "CHR '']'' \<noteq> CHR '',''" by simp
  show ?case
    unfolding n
    by (subst parse_elements.simps(2))
       (simp only: join.simps list.map pv sk option.case prod.case list.case if_True simp_thms)
next
  case (cons ms mss)
  define n' where "n' = n - 2"
  have ne: "ms \<noteq> []" and lm: "length ms \<le> m"
    and all: "\<forall>ms\<in>set mss. ms \<noteq> [] \<and> length ms \<le> m"
    using cons.prems by simp_all
  have n: "n = Suc (Suc n')" using cons.prems by (simp add: n'_def)
  have l: "length ms < n'" using cons.prems(2) lm unfolding n'_def by simp
  have l2: "length mss + m + 1 < Suc n'" using cons.prems(2) unfolding n'_def by simp
  obtain ms' mss' where mss: "mss = ms' # mss'" using cons.hyps by (cases mss) auto
  let ?R = "join ('','' @ [newline] @ ind) (map (\<lambda>ms. serialize ind (flat_object ms)) mss)
            @ [newline] @ ind0 @ '']'' @ rest"
  have tx: "join ('','' @ [newline] @ ind) (map (\<lambda>ms. serialize ind (flat_object ms)) (ms # mss))
              @ [newline] @ ind0 @ '']'' @ rest
            = serialize ind (flat_object ms) @ (CHR '','' # newline # ind @ ?R)"
    unfolding mss by simp
  have pv: "parse_value (Suc n') (serialize ind (flat_object ms) @ (CHR '','' # newline # ind @ ?R))
            = Some (flat_object ms, CHR '','' # newline # ind @ ?R)"
    by (rule parse_value_flat [OF ws(1) ne l])
  have sk: "skip_ws (CHR '','' # newline # ind @ ?R) = CHR '','' # (newline # ind @ ?R)"
    by (rule skip_ws_none) (rule not_ws)
  have all': "\<forall>ms\<in>set mss. ms \<noteq> []" using all by simp
  from join_objects_head [OF cons.hyps(1) all', of "'','' @ [newline] @ ind" ind
      "[newline] @ ind0 @ '']'' @ rest"]
  obtain T where T: "?R = CHR ''{'' # T" ..
  have sk2: "skip_ws (newline # ind @ ?R) = ?R"
    unfolding T using skip_ws_newline [OF ws(1) not_ws(6)] by simp
  have ih: "parse_elements (Suc n') ?R = Some (map flat_object mss, rest)"
    by (rule cons.IH [OF all l2])
  have c: "CHR '','' \<noteq> CHR '']''" by simp
  show ?case
    unfolding tx n
    apply (subst parse_elements.simps(2))
    apply (simp only: pv option.case prod.case)
    apply (simp only: sk list.case c if_False if_True simp_thms)
    apply (simp only: sk2)
    apply (simp only: ih option.case prod.case list.map)
    done
qed

lemma length_join: "sum_list (map length xs) \<le> length (join sep xs)"
  by (induction sep xs rule: join.induct) auto

lemma length_members: "length ms \<le> sum_list (map length (map member_text ms))"
  by (induction ms) (auto simp: member_text_def QuoteJSONString_def)

lemma length_flat: "ms \<noteq> [] \<Longrightarrow> length ms + 4 \<le> length (serialize ind0 (flat_object ms))"
proof -
  assume ne: "ms \<noteq> []"
  have "length ms \<le> length (join ('','' @ [newline] @ (ind0 @ gap)) (map member_text ms))"
    using length_members [of ms] length_join [of "map member_text ms"] by (rule order_trans)
  then show ?thesis by (simp add: serialize_flat [OF ne])
qed

lemma length_objects:
  "mss \<noteq> [] \<Longrightarrow> \<forall>ms\<in>set mss. ms \<noteq> [] \<and> length ms = m \<Longrightarrow>
   length mss + m + 3 \<le> sum_list (map length (map (\<lambda>ms. serialize ind (flat_object ms)) mss))"
proof (induction mss rule: list_nonempty_induct)
  case (single ms)
  then show ?case using length_flat [of ms ind] by simp
next
  case (cons ms mss)
  have "length ms + 4 \<le> length (serialize ind (flat_object ms))"
    using cons.prems by (intro length_flat) simp
  moreover have "length mss + m + 3
                 \<le> sum_list (map length (map (\<lambda>ms. serialize ind (flat_object ms)) mss))"
    using cons.prems by (intro cons.IH) simp
  ultimately show ?case by simp
qed

lemma stringify_flat_array:
  "mss \<noteq> [] \<Longrightarrow>
   JSON_stringify (JArray (map flat_object mss))
   = CHR ''['' # newline # gap
     @ (join ('','' @ [newline] @ gap) (map (\<lambda>ms. serialize gap (flat_object ms)) mss)
        @ [newline] @ [] @ '']'' @ [])"
  by (simp add: JSON_stringify_def comp_def)

lemma JSON_parse_flat_array:
  assumes ne: "mss \<noteq> []" and all: "\<forall>ms\<in>set mss. ms \<noteq> [] \<and> length ms = m"
  shows "JSON_parse (JSON_stringify (JArray (map flat_object mss)))
         = Some (JArray (map flat_object mss))"
proof -
  let ?E = "join ('','' @ [newline] @ gap) (map (\<lambda>ms. serialize gap (flat_object ms)) mss)
            @ [newline] @ [] @ '']'' @ []"
  let ?L = "length (JSON_stringify (JArray (map flat_object mss)))"
  have tx: "JSON_stringify (JArray (map flat_object mss)) = CHR ''['' # newline # gap @ ?E"
    by (rule stringify_flat_array [OF ne])
  have all1: "\<forall>ms\<in>set mss. ms \<noteq> []" and all2: "\<forall>ms\<in>set mss. ms \<noteq> [] \<and> length ms \<le> m"
    using all by simp_all
  have "length mss + m + 3
        \<le> length (join ('','' @ [newline] @ gap) (map (\<lambda>ms. serialize gap (flat_object ms)) mss))"
    using length_objects [OF ne all, of gap]
      length_join [of "map (\<lambda>ms. serialize gap (flat_object ms)) mss" "'','' @ [newline] @ gap"]
    by (rule order_trans)
  then have fuel: "length mss + m + 1 < ?L"
    unfolding tx by simp
  have ws: "list_all is_ws gap" "list_all is_ws []"
    by (simp_all add: gap_def is_ws_def)
  from join_objects_head [OF ne all1, of "'','' @ [newline] @ gap" gap "[newline] @ [] @ '']'' @ []"]
  obtain T where T: "?E = CHR ''{'' # T" ..
  have sk0: "skip_ws (CHR ''['' # newline # gap @ ?E) = CHR ''['' # newline # gap @ ?E"
    by (rule skip_ws_none) (rule not_ws)
  have sk1: "skip_ws (newline # gap @ ?E) = CHR ''{'' # T"
    unfolding T by (rule skip_ws_newline [OF ws(1) not_ws(6)])
  have pe: "parse_elements ?L (CHR ''{'' # T) = Some (map flat_object mss, [])"
    unfolding T [symmetric] by (rule parse_elements_flat [OF ws ne all2 fuel])
  have c: "CHR ''['' \<noteq> dquote" "CHR ''{'' \<noteq> CHR '']''" by (simp_all add: dquote_def)
  have e: "skip_ws [] = []" by (simp add: skip_ws_def)
  have pv: "parse_value (Suc ?L) (CHR ''['' # newline # gap @ ?E)
            = Some (JArray (map flat_object mss), [])"
    by (subst parse_value.simps(3))
       (simp only: sk1 pe c list.case option.case prod.case if_False if_True simp_thms)
  have sk0': "skip_ws (JSON_stringify (JArray (map flat_object mss)))
             = CHR ''['' # newline # gap @ ?E"
    unfolding tx by (rule sk0)
  show ?thesis
    unfolding JSON_parse_def
    by (simp only: sk0' pv e option.case prod.case if_True simp_thms)
qed

lemma search_content_flat: "search_content img = flat_object (search_fields img)"
  by (simp add: search_content_def flat_object_def search_fields_def)

lemma parse_search_contents:
  assumes "images \<noteq> []"
  shows "JSON_parse (JSON_stringify (JArray (map search_content images)))
         = Some (JArray (map search_content images))"
proof -
  have m: "map search_content images = map flat_object (map search_fields images)"
    by (simp add: search_content_flat [abs_def] comp_def)
  have ne: "map search_fields images \<noteq> []" using assms by simp
  have all: "\<forall>ms\<in>set (map search_fields images). ms \<noteq> [] \<and> length ms = 7"
    by (simp add: search_fields_def)
  show ?thesis
    unfolding m by (rule JSON_parse_flat_array [OF ne all])
qed

text \<open>
  Claim C5. When the arguments of \<open>gyazo_search\<close> are valid and the upstream answers
  the search request with one or more records, the tool returns exactly one text part;
  its text, read as JSON, is an array with one object per record, in the order of the
  upstream answer, each object having the seven members \<open>uri\<close> (scheme prefix and
  identifier), \<open>mimeType\<close> (\<open>image/\<close> and type), \<open>permalink_url\<close>, \<open>url\<close>, \<open>thumb_url\<close>,
  \<open>created_at\<close> and \<open>alt_text\<close> of that record, and no other.
\<close>

theorem search_results:
  assumes "params_name params = ''gyazo_search''"
    and "params_arguments params = Some args"
    and "args ''query'' = JStr query"
    and "target = ''https://api.gyazo.com/api/search?''
           @ URLSearchParams_toString rt
               [(''access_token'', GYAZO_ACCESS_TOKEN rt), (''query'', query),
                (''page'', number_or (args ''page'') ''1''),
                (''per'', number_or (args ''per'') ''20'')]"
    and "fetch_search rt target = Inr (Some images)"
    and "images \<noteq> []"
  shows "CallTool rt params
         = ([Get target], Inr [TextPart (JSON_stringify (JArray (map search_content images)))])
       \<and> JSON_parse (JSON_stringify (JArray (map search_content images)))
         = Some (JArray (map (\<lambda>img.
              JObject [(''uri'', JString (''gyazo-mcp:///'' @ s_image_id img)),
                       (''mimeType'', JString (''image/'' @ s_type img)),
                       (''permalink_url'', JString (s_permalink_url img)),
                       (''url'', JString (s_url img)),
                       (''thumb_url'', JString (s_thumb_url img)),
                       (''created_at'', JString (s_created_at img)),
                       (''alt_text'', JString (s_alt_text img))]) images))"
proof
  show "CallTool rt params
        = ([Get target], Inr [TextPart (JSON_stringify (JArray (map search_content images)))])"
    using assms unfolding CallTool_def gyazo_search_def by (simp add: Let_def)
  have "map search_content images
        = map (\<lambda>img.
              JObject [(''uri'', JString (''gyazo-mcp:///'' @ s_image_id img)),
                       (''mimeType'', JString (''image/'' @ s_type img)),
                       (''permalink_url'', JString (s_permalink_url img)),
                       (''url'', JString (s_url img)),
                       (''thumb_url'', JString (s_thumb_url img)),
                       (''created_at'', JString (s_created_at img)),
                       (''alt_text'', JString (s_alt_text img))]) images"
    by (simp add: search_content_def resource_uri_def scheme_prefix_def)
  then show "JSON_parse (JSON_stringify (JArray (map search_content images)))
         = Some (JArray (map (\<lambda>img.
              JObject [(''uri'', JString (''gyazo-mcp:///'' @ s_image_id img)),
                       (''mimeType'', JString (''image/'' @ s_type img)),
                       (''permalink_url'', JString (s_permalink_url img)),
                       (''url'', JString (s_url img)),
                       (''thumb_url'', JString (s_thumb_url img)),
                       (''created_at'', JString (s_created_at img)),
                       (''alt_text'', JString (s_alt_text img))]) images))"
    using parse_search_contents [OF assms(6)] by simp
qed

theorem search_results_witness:
  "CallTool found_upstream
     \<lparr> params_name = ''gyazo_search'', params_arguments = Some (query_only ''cat'') \<rparr>
   = ([Get ''https://api.gyazo.com/api/search?access_token=token&query=cat&page=1&per=20''],
      Inr [TextPart (JSON_stringify (JArray (map search_content found_images)))])
   \<and> JSON_parse (JSON_stringify (JArray (map search_content found_images)))
     = Some (JArray
         [JObject [(''uri'', JString ''gyazo-mcp:///abc''),
                   (''mimeType'', JString ''image/png''),
                   (''permalink_url'', JString ''https://gyazo.com/abc''),
                   (''url'', JString ''https://i.gyazo.com/abc.png''),
                   (''thumb_url'', JString ''https://thumb.gyazo.com/thumb/200/abc.jpg''),
                   (''created_at'', JString ''2025-02-14T12:04:26+0000''),
                   (''alt_text'', JString [])],
          JObject [(''uri'', JString ''gyazo-mcp:///def''),
                   (''mimeType'', JString ''image/jpg''),
                   (''permalink_url'', JString ''https://gyazo.com/def''),
                   (''url'', JString ''https://i.gyazo.com/def.jpg''),
                   (''thumb_url'', JString ''https://thumb.gyazo.com/thumb/200/def.jpg''),
                   (''created_at'', JString ''2025-02-15T08:00:00+0000''),
                   (''alt_text'',
                    JString (''a '' @ [dquote] @ ''cat'' @ [dquote, newline] @ ''on a mat''))]])"
proof -
  let ?p = "\<lparr> params_name = ''gyazo_search'', params_arguments = Some (query_only ''cat'') \<rparr>"
  let ?t = "''https://api.gyazo.com/api/search?access_token=token&query=cat&page=1&per=20''"
  have h1: "params_name ?p = ''gyazo_search''" by simp
  have h2: "params_arguments ?p = Some (query_only ''cat'')" by simp
  have h3: "query_only ''cat'' ''query'' = JStr ''cat''" by (simp add: query_only_def)
  have h4: "?t = ''https://api.gyazo.com/api/search?''
           @ URLSearchParams_toString found_upstream
               [(''access_token'', GYAZO_ACCESS_TOKEN found_upstream), (''query'', ''cat''),
                (''page'', number_or (query_only ''cat'' ''page'') ''1''),
                (''per'', number_or (query_only ''cat'' ''per'') ''20'')]"
    by (simp add: found_upstream_def empty_upstream_def plain_query_def query_only_def
        number_or_def)
  have h5: "fetch_search found_upstream ?t = Inr (Some found_images)"
    by (simp add: found_upstream_def)
  have h6: "found_images \<noteq> []" by (simp add: found_images_def)
  note r = search_results [OF h1 h2 h3 h4 h5 h6]
  have v: "map (\<lambda>img.
              JObject [(''uri'', JString (''gyazo-mcp:///'' @ s_image_id img)),
                       (''mimeType'', JString (''image/'' @ s_type img)),
                       (''permalink_url'', JString (s_permalink_url img)),
                       (''url'', JString (s_url img)),
                       (''thumb_url'', JString (s_thumb_url img)),
                       (''created_at'', JString (s_created_at img)),
                       (''alt_text'', JString (s_alt_text img))]) found_images
     = [JObject [(''uri'', JString ''gyazo-mcp:///abc''),
                   (''mimeType'', JString ''image/png''),
                   (''permalink_url'', JString ''https://gyazo.com/abc''),
                   (''url'', JString ''https://i.gyazo.com/abc.png''),
                   (''thumb_url'', JString ''https://thumb.gyazo.com/thumb/200/abc.jpg''),
                   (''created_at'', JString ''2025-02-14T12:04:26+0000''),
                   (''alt_text'', JString [])],
          JObject [(''uri'', JString ''gyazo-mcp:///def''),
                   (''mimeType'', JString ''image/jpg''),
                   (''permalink_url'', JString ''https://gyazo.com/def''),
                   (''url'', JString ''https://i.gyazo.com/def.jpg''),
                   (''thumb_url'', JString ''https://thumb.gyazo.com/thumb/200/def.jpg''),
                   (''created_at'', JString ''2025-02-15T08:00:00+0000''),
                   (''alt_text'',
                    JString (''a '' @ [dquote] @ ''cat'' @ [dquote, newline] @ ''on a mat''))]]"
    by (simp add: found_images_def)
  show ?thesis
    by (rule r [unfolded v])
qed

end
